theory Spec2Isabelle
  imports Main
begin

section \<open>Strings as the handler sees them\<close>

text \<open>
  A JavaScript string is modelled as a \<^typ>\<open>string\<close>: a list of code units, here
  restricted to the range 0..255.  In that range the white space of
  \<^verbatim>\<open>String.prototype.trim\<close> and of the regular-expression class
  \<^verbatim>\<open>\s\<close> is TAB, LF, VT, FF, CR, SPACE and NBSP.
\<close>

definition is_space :: "char \<Rightarrow> bool" where
  "is_space c \<longleftrightarrow> of_char c \<in> {9, 10, 11, 12, 13, 32, 160 :: nat}"

definition trimStart :: "string \<Rightarrow> string" where
  "trimStart s = dropWhile is_space s"

definition trimEnd :: "string \<Rightarrow> string" where
  "trimEnd s = rev (dropWhile is_space (rev s))"

definition trim :: "string \<Rightarrow> string" where
  "trim s = trimStart (trimEnd s)"


text \<open>\<^verbatim>\<open>String.prototype.toLowerCase\<close> on code units below 256.\<close>

definition lower_char :: "char \<Rightarrow> char" where
  "lower_char c =
     (let n = (of_char c :: nat) in
      if (65 \<le> n \<and> n \<le> 90) \<or> (192 \<le> n \<and> n \<le> 222 \<and> n \<noteq> 215)
      then char_of (n + 32) else c)"

definition toLowerCase :: "string \<Rightarrow> string" where
  "toLowerCase s = map lower_char s"

text \<open>A status code as a template literal prints it: in decimal.\<close>

definition digit_char :: "nat \<Rightarrow> char" where
  "digit_char d = ''0123456789'' ! d"

fun decimal :: "nat \<Rightarrow> string" where
  "decimal n = (if 10 \<le> n then decimal (n div 10) @ [digit_char (n mod 10)] else [digit_char n])"

text \<open>\<^verbatim>\<open>s.split(c)\<close> for a one-character separator, and \<^verbatim>\<open>parts.join(sep)\<close>.\<close>

fun split_on :: "char \<Rightarrow> string \<Rightarrow> string list" where
  "split_on sep [] = [[]]"
| "split_on sep (c # cs) =
     (if c = sep then [] # split_on sep cs
      else (case split_on sep cs of
              [] \<Rightarrow> [[c]]
            | l # ls \<Rightarrow> (c # l) # ls))"

fun join :: "string \<Rightarrow> string list \<Rightarrow> string" where
  "join sep [] = []"
| "join sep [p] = p"
| "join sep (p # q # ps) = p @ sep @ join sep (q # ps)"

text \<open>
  \<^verbatim>\<open>s.replace(re, ...)\<close> with a global regular expression none of whose matches is
  empty.  The matcher \<open>m\<close> is the expression tried at the start of a string: it gives
  the replacement text and the length of the match.  Matching goes left to right; after
  a match it resumes behind the match, otherwise one character further on.
\<close>

fun gsub :: "(string \<Rightarrow> (string \<times> nat) option) \<Rightarrow> string \<Rightarrow> string" where
  "gsub m [] = []"
| "gsub m (c # cs) =
     (case m (c # cs) of
        None \<Rightarrow> c # gsub m cs
      | Some (r, n) \<Rightarrow> r @ gsub m (drop (n - 1) cs))"

text \<open>A literal pattern (a string, or an expression without operators) and its replacement.\<close>

definition literally :: "string \<Rightarrow> string \<Rightarrow> string \<Rightarrow> (string \<times> nat) option" where
  "literally pat rep s = (if pat \<noteq> [] \<and> take (length pat) s = pat then Some (rep, length pat) else None)"

definition LF :: char where "LF = CHR 0x0A"
definition CR :: char where "CR = CHR 0x0D"
definition DQ :: char where "DQ = CHR 0x22"

section \<open>Rich text: \<^verbatim>\<open>toRichHtml\<close> and \<^verbatim>\<open>htmlToPlainText\<close>\<close>

subsection \<open>\<^verbatim>\<open>esc\<close> and \<^verbatim>\<open>fmtInline\<close>\<close>

definition replace_char :: "char \<Rightarrow> string \<Rightarrow> string \<Rightarrow> string" where
  "replace_char c rep s = concat (map (\<lambda>x. if x = c then rep else [x]) s)"

definition esc :: "string \<Rightarrow> string" where
  "esc s = replace_char CHR ''>'' ''&gt;'' (replace_char CHR ''<'' ''&lt;'' (replace_char CHR ''&'' ''&amp;'' s))"

definition not_star :: "char \<Rightarrow> bool" where
  "not_star c \<longleftrightarrow> c \<noteq> CHR ''*''"

text \<open>
  \<^verbatim>\<open>/\*\*([^*]+)\*\*/\<close>: two stars, the longest run without a star (not empty), two
  stars.
\<close>

definition bold_at :: "string \<Rightarrow> (string \<times> nat) option" where
  "bold_at s =
     (if take 2 s = ''**''
        \<and> takeWhile not_star (drop 2 s) \<noteq> []
        \<and> take 2 (dropWhile not_star (drop 2 s)) = ''**''
      then Some (''<strong>'' @ takeWhile not_star (drop 2 s) @ ''</strong>'',
                 length (takeWhile not_star (drop 2 s)) + 4)
      else None)"

text \<open>\<^verbatim>\<open>/\*([^*]+)\*/\<close>\<close>

definition italic_at :: "string \<Rightarrow> (string \<times> nat) option" where
  "italic_at s =
     (if take 1 s = ''*''
        \<and> takeWhile not_star (drop 1 s) \<noteq> []
        \<and> take 1 (dropWhile not_star (drop 1 s)) = ''*''
      then Some (''<em>'' @ takeWhile not_star (drop 1 s) @ ''</em>'',
                 length (takeWhile not_star (drop 1 s)) + 2)
      else None)"

text \<open>
  \<^verbatim>\<open>/(https?:\/\/[^\s)]+)(?![^<]*>)/\<close>.  After the scheme comes the longest run of
  characters that are neither white space nor a closing parenthesis; the expression
  gives characters of that run back, one at a time and down to one, until the negative
  lookahead holds behind the match: the text there must not be a run of characters other
  than \<^verbatim>\<open><\<close> followed by \<^verbatim>\<open>>\<close>.
\<close>

definition url_char :: "char \<Rightarrow> bool" where
  "url_char c \<longleftrightarrow> \<not> is_space c \<and> c \<noteq> CHR '')''"

definition inside_tag :: "string \<Rightarrow> bool" where
  "inside_tag s \<longleftrightarrow> CHR ''>'' \<in> set (takeWhile (\<lambda>c. c \<noteq> CHR ''<'') s)"

definition scheme_length :: "string \<Rightarrow> nat option" where
  "scheme_length s =
     (if take 8 s = ''https://'' then Some 8
      else if take 7 s = ''http://'' then Some 7
      else None)"

definition anchor :: "string \<Rightarrow> string" where
  "anchor url = ''<a href='' @ [DQ] @ url @ [DQ] @ '' target='' @ [DQ] @ ''_blank'' @ [DQ]
                 @ '' rel='' @ [DQ] @ ''noopener noreferrer'' @ [DQ] @ ''>'' @ url @ ''</a>''"

definition link_at :: "string \<Rightarrow> (string \<times> nat) option" where
  "link_at s =
     (case scheme_length s of
        None \<Rightarrow> None
      | Some p \<Rightarrow>
          (let run = length (takeWhile url_char (drop p s)) in
           case List.find (\<lambda>k. \<not> inside_tag (drop (p + k) s)) (rev [1 ..< Suc run]) of
             None \<Rightarrow> None
           | Some k \<Rightarrow> Some (anchor (take (p + k) s), p + k)))"

definition fmtInline :: "string \<Rightarrow> string" where
  "fmtInline s = gsub link_at (gsub italic_at (gsub bold_at s))"

subsection \<open>Lines\<close>

text \<open>
  \<^verbatim>\<open>\s+(.+)\<close> behind a line marker: white space, as much as possible but at least
  one character, given back one at a time until a character that the dot accepts (any
  but LF and CR) follows; the capture is the longest run of such characters.
\<close>

definition dot_char :: "char \<Rightarrow> bool" where
  "dot_char c \<longleftrightarrow> c \<noteq> LF \<and> c \<noteq> CR"

definition starts_dot :: "string \<Rightarrow> bool" where
  "starts_dot s = (case s of [] \<Rightarrow> False | c # _ \<Rightarrow> dot_char c)"

definition spaces_then_text :: "string \<Rightarrow> string option" where
  "spaces_then_text s =
     (case List.find (\<lambda>k. starts_dot (drop k s)) (rev [1 ..< Suc (length (takeWhile is_space s))]) of
        None \<Rightarrow> None
      | Some k \<Rightarrow> Some (takeWhile dot_char (drop k s)))"

text \<open>\<^verbatim>\<open>/^###\s+(.+)/\<close>, \<^verbatim>\<open>/^##\s+(.+)/\<close>, \<^verbatim>\<open>/^#\s+(.+)/\<close>, \<^verbatim>\<open>/^[-*]\s+(.+)/\<close>\<close>

definition heading_at :: "nat \<Rightarrow> string \<Rightarrow> string option" where
  "heading_at n line =
     (if take n line = replicate n CHR ''#'' then spaces_then_text (drop n line) else None)"

definition list_item_at :: "string \<Rightarrow> string option" where
  "list_item_at line =
     (case line of
        [] \<Rightarrow> None
      | c # cs \<Rightarrow> if c = CHR ''-'' \<or> c = CHR ''*'' then spaces_then_text cs else None)"

text \<open>The two buffers the conversion fills: \<^verbatim>\<open>htmlParts\<close> and \<^verbatim>\<open>listBuffer\<close>.\<close>

type_synonym rich_state = "string list \<times> string list"

definition flushList :: "rich_state \<Rightarrow> rich_state" where
  "flushList st =
     (case st of (htmlParts, listBuffer) \<Rightarrow>
        if length listBuffer > 0
        then (htmlParts @ [''<ul>''] @ map (\<lambda>li. ''<li>'' @ li @ ''</li>'') listBuffer @ [''</ul>''], [])
        else (htmlParts, listBuffer))"

definition push_part :: "string \<Rightarrow> rich_state \<Rightarrow> rich_state" where
  "push_part part st = (case st of (htmlParts, listBuffer) \<Rightarrow> (htmlParts @ [part], listBuffer))"

definition rich_line :: "rich_state \<Rightarrow> string \<Rightarrow> rich_state" where
  "rich_line st raw =
     (let line = trimEnd raw in
      if trim line = [] then flushList st
      else case heading_at 3 line of
        Some t \<Rightarrow> push_part (''<h3>'' @ fmtInline (esc t) @ ''</h3>'') (flushList st)
      | None \<Rightarrow>
      (case heading_at 2 line of
        Some t \<Rightarrow> push_part (''<h2>'' @ fmtInline (esc t) @ ''</h2>'') (flushList st)
      | None \<Rightarrow>
      (case heading_at 1 line of
        Some t \<Rightarrow> push_part (''<h1>'' @ fmtInline (esc t) @ ''</h1>'') (flushList st)
      | None \<Rightarrow>
      (case list_item_at line of
        Some t \<Rightarrow> (fst st, snd st @ [fmtInline (esc t)])
      | None \<Rightarrow> push_part (''<p>'' @ fmtInline (esc line) @ ''</p>'') (flushList st)))))"

definition toRichHtml :: "string \<Rightarrow> string" where
  "toRichHtml input =
     (let text = gsub (literally [CR, LF] [LF]) input;
          lines = split_on LF text
      in join [LF] (fst (flushList (foldl rich_line ([], []) lines))))"

subsection \<open>\<^verbatim>\<open>htmlToPlainText\<close>\<close>

text \<open>A prefix test that ignores the case of ASCII letters, as the \<^verbatim>\<open>i\<close> flag does.\<close>

definition ascii_lower :: "char \<Rightarrow> char" where
  "ascii_lower c = (let n = (of_char c :: nat) in if 65 \<le> n \<and> n \<le> 90 then char_of (n + 32) else c)"

definition starts_ci :: "string \<Rightarrow> string \<Rightarrow> bool" where
  "starts_ci pat s \<longleftrightarrow> map ascii_lower (take (length pat) s) = pat"

text \<open>\<^verbatim>\<open>/<\s*br\s*\/?\s*>/gi\<close>\<close>

definition br_at :: "string \<Rightarrow> (string \<times> nat) option" where
  "br_at s =
     (if take 1 s \<noteq> ''<'' then None
      else let s1 = dropWhile is_space (drop 1 s) in
        if \<not> starts_ci ''br'' s1 then None
        else let s2 = dropWhile is_space (drop 2 s1);
                 s3 = (if take 1 s2 = ''/'' then drop 1 s2 else s2);
                 s4 = dropWhile is_space s3
             in if take 1 s4 = ''>'' then Some ([LF], length s - length s4 + 1) else None)"

text \<open>
  The alternatives \<^verbatim>\<open>(p|div|h[1-6]|li|ul|ol|blockquote|section|article)\<close> in the
  order they are tried: the lengths of those that match at the start of the string.
\<close>

definition block_tag_lengths :: "string \<Rightarrow> nat list" where
  "block_tag_lengths s =
     (if starts_ci ''p'' s then [1] else [])
     @ (if starts_ci ''div'' s then [3] else [])
     @ (if starts_ci ''h'' s \<and> (case drop 1 s of [] \<Rightarrow> False | d # _ \<Rightarrow> d \<in> set ''123456'') then [2] else [])
     @ (if starts_ci ''li'' s then [2] else [])
     @ (if starts_ci ''ul'' s then [2] else [])
     @ (if starts_ci ''ol'' s then [2] else [])
     @ (if starts_ci ''blockquote'' s then [10] else [])
     @ (if starts_ci ''section'' s then [7] else [])
     @ (if starts_ci ''article'' s then [7] else [])"

text \<open>\<^verbatim>\<open>/<\s*\/\s*(p|div|...)\s*>/gi\<close>\<close>

definition closing_at :: "string \<Rightarrow> (string \<times> nat) option" where
  "closing_at s =
     (if take 1 s \<noteq> ''<'' then None
      else let s1 = dropWhile is_space (drop 1 s) in
        if take 1 s1 \<noteq> ''/'' then None
        else let s2 = dropWhile is_space (drop 1 s1) in
          case List.find (\<lambda>n. take 1 (dropWhile is_space (drop n s2)) = ''>'') (block_tag_lengths s2) of
            None \<Rightarrow> None
          | Some n \<Rightarrow> Some ([LF], length s - length (dropWhile is_space (drop n s2)) + 1))"

text \<open>\<^verbatim>\<open>/<\s*(p|div|...)[^>]*>/gi\<close>\<close>

definition not_gt :: "char \<Rightarrow> bool" where
  "not_gt c \<longleftrightarrow> c \<noteq> CHR ''>''"

definition opening_at :: "string \<Rightarrow> (string \<times> nat) option" where
  "opening_at s =
     (if take 1 s \<noteq> ''<'' then None
      else let s1 = dropWhile is_space (drop 1 s) in
        case List.find (\<lambda>n. take 1 (dropWhile not_gt (drop n s1)) = ''>'') (block_tag_lengths s1) of
          None \<Rightarrow> None
        | Some n \<Rightarrow> Some ([LF], length s - length (dropWhile not_gt (drop n s1)) + 1))"

text \<open>\<^verbatim>\<open>/<[^>]+>/g\<close>\<close>

definition tag_at :: "string \<Rightarrow> (string \<times> nat) option" where
  "tag_at s =
     (if take 1 s = ''<''
        \<and> takeWhile not_gt (drop 1 s) \<noteq> []
        \<and> take 1 (dropWhile not_gt (drop 1 s)) = ''>''
      then Some ([], length (takeWhile not_gt (drop 1 s)) + 2)
      else None)"

text \<open>\<^verbatim>\<open>/\n{3,}/g\<close>\<close>

definition blank_lines_at :: "string \<Rightarrow> (string \<times> nat) option" where
  "blank_lines_at s =
     (let n = length (takeWhile (\<lambda>c. c = LF) s) in
      if n \<ge> 3 then Some ([LF, LF], n) else None)"

definition decode_entities :: "string \<Rightarrow> string" where
  "decode_entities s =
     gsub (literally ''&#39;'' [CHR 0x27])
      (gsub (literally ''&quot;'' [DQ])
        (gsub (literally ''&gt;'' ''>'')
          (gsub (literally ''&lt;'' ''<'')
            (gsub (literally ''&amp;'' ''&'')
              (gsub (literally ''&nbsp;'' '' '') s)))))"

definition htmlToPlainText :: "string \<Rightarrow> string" where
  "htmlToPlainText html =
     (if html = [] then []
      else let t1 = gsub br_at html;
               t2 = gsub closing_at t1;
               t3 = gsub opening_at t2;
               t4 = gsub tag_at t3;
               t5 = decode_entities t4;
               t6 = join [LF] (map trimEnd (split_on LF t5));
               t7 = gsub blank_lines_at t6
           in trim t7)"

subsection \<open>Reading a line\<close>

text \<open>
  A line begins with a heading marker (one to three \<^verbatim>\<open>#\<close>) or a list marker
  (\<^verbatim>\<open>-\<close> or \<^verbatim>\<open>*\<close>) that a character of the given kind follows; and a string
  contains a URL when the link expression matches somewhere in it.
\<close>

definition hashes_then :: "nat \<Rightarrow> (char \<Rightarrow> bool) \<Rightarrow> string \<Rightarrow> bool" where
  "hashes_then n follows line \<longleftrightarrow>
     take n line = replicate n CHR ''#'' \<and> (case drop n line of [] \<Rightarrow> False | c # _ \<Rightarrow> follows c)"

definition bullet_then :: "(char \<Rightarrow> bool) \<Rightarrow> string \<Rightarrow> bool" where
  "bullet_then follows line \<longleftrightarrow>
     (case line of
        c # d # _ \<Rightarrow> (c = CHR ''-'' \<or> c = CHR ''*'') \<and> follows d
      | _ \<Rightarrow> False)"

definition marker_then :: "(char \<Rightarrow> bool) \<Rightarrow> string \<Rightarrow> bool" where
  "marker_then follows line \<longleftrightarrow>
     hashes_then 1 follows line \<or> hashes_then 2 follows line \<or> hashes_then 3 follows line
     \<or> bullet_then follows line"

definition contains_url :: "string \<Rightarrow> bool" where
  "contains_url s = list_ex (\<lambda>i. link_at (drop i s) \<noteq> None) [0 ..< length s]"

definition special_free :: "string \<Rightarrow> bool" where
  "special_free s \<longleftrightarrow>
     CHR ''&'' \<notin> set s \<and> CHR ''<'' \<notin> set s \<and> CHR ''>'' \<notin> set s \<and> CHR ''*'' \<notin> set s"

text \<open>The character U+0020, the space of the keyboard.\<close>

definition space_char :: "char \<Rightarrow> bool" where
  "space_char c \<longleftrightarrow> c = CHR '' ''"

text \<open>A heading written with a TAB after the marker, and a title with blanks around it.\<close>

definition tab_heading :: string where
  "tab_heading = ''#'' @ [CHR 0x09] @ ''x''"

definition padded_title :: string where
  "padded_title = ''  Safer streets for bikes  ''"


section \<open>Tool arguments and tool results\<close>

text \<open>
  \<^verbatim>\<open>FunctionArgs = FindContentArgs | CreateContentArgs | EditContentArgs\<close>.  The
  handler casts the parsed argument object to this union and the executors test which
  keys are present, so the arguments are one record of the keys the three interfaces
  declare, each with its declared type and absent (\<open>None\<close>) when the object lacks it.
\<close>

record changes =
  ch_title :: "string option"
  ch_description :: "string option"

record function_args =
  a_query :: "string option"
  a_type :: "string option"
  a_title :: "string option"
  a_description :: "string option"
  a_content_type :: "string option"
  a_parent_id :: "string option"
  a_confirm :: "bool option"
  a_content_id :: "string option"
  a_changes :: "changes option"

text \<open>
  \<^verbatim>\<open>FindContentResult['items'][number]\<close>: title, type, optional id, optional link.
\<close>

record item =
  it_title :: string
  it_type :: string
  it_id :: "string option"
  it_link :: "string option"

text \<open>The preview objects of \<^verbatim>\<open>create_content\<close> and \<^verbatim>\<open>edit_content\<close>.\<close>

record create_preview =
  cp_title :: string
  cp_content_type :: string
  cp_description :: string
  cp_html :: string
  cp_plain_text :: string
  cp_parent_id :: "string option"

record edit_preview =
  ep_content_id :: string
  ep_title :: "string option"
  ep_description :: "string option"
  ep_html :: "string option"
  ep_plain_text :: "string option"

text \<open>
  What the Content Backend sends.  \<^verbatim>\<open>NeedpediaPost\<close> has optional fields; its
  \<^verbatim>\<open>id\<close> (a string or a number) is kept as the text \<^verbatim>\<open>String(id)\<close> gives.  A value
  of unknown shape is a post object, an array, or anything else.
\<close>

record needpedia_post =
  np_id :: "string option"
  np_title :: "string option"
  np_post_type :: "string option"
  np_link :: "string option"
  np_url :: "string option"
  np_post_url :: "string option"

datatype raw = RawPost needpedia_post | RawArray "raw list" | RawOther

text \<open>
  \<^verbatim>\<open>FunctionResult\<close>.  A preview result is the object with
  \<^verbatim>\<open>requires_confirmation: true\<close>, the preview and the fixed instructions text; a
  write result is \<^verbatim>\<open>{ post: payload.content?.post }\<close>.
\<close>

datatype function_result =
    FindContentResult "item list"
  | CreateRequiresConfirmation create_preview
  | EditRequiresConfirmation edit_preview
  | PostResult "raw option"

text \<open>\<^verbatim>\<open>ExecutedToolResult = { name, result }\<close>\<close>

type_synonym executed_tool_result = "string \<times> function_result"


section \<open>Placeholder links\<close>

text \<open>
  The regular expression \<^verbatim>\<open>/\[([^\]]+)\]\(#\)/\<close> tried at the start of a string:
  an opening bracket, the longest run of characters other than the closing bracket (it
  must not be empty, and no shorter run can be followed by a closing bracket), then the
  four characters \<^verbatim>\<open>](#)\<close>.  The result is the captured label.
\<close>

definition not_rbracket :: "char \<Rightarrow> bool" where
  "not_rbracket c \<longleftrightarrow> c \<noteq> CHR '']''"

fun placeholder_at :: "string \<Rightarrow> string option" where
  "placeholder_at [] = None"
| "placeholder_at (c # cs) =
     (if c = CHR ''[''
        \<and> takeWhile not_rbracket cs \<noteq> []
        \<and> take 4 (dropWhile not_rbracket cs) = ''](#)''
      then Some (takeWhile not_rbracket cs) else None)"

text \<open>
  \<^verbatim>\<open>text.replace(re, (match, label) => ...)\<close> with the global flag: matches are
  found left to right without overlap, and the callback runs once for each with the
  counter \<^verbatim>\<open>linkIndex\<close> it closes over.  A match takes the bracket, the label and
  four more characters.
\<close>

fun replace_links :: "string list \<Rightarrow> nat \<Rightarrow> string \<Rightarrow> string" where
  "replace_links links linkIndex [] = []"
| "replace_links links linkIndex (c # cs) =
     (case placeholder_at (c # cs) of
        None \<Rightarrow> c # replace_links links linkIndex cs
      | Some label \<Rightarrow>
          (if linkIndex \<ge> length links
           then (''['' @ label @ ''](#)'') @ replace_links links linkIndex (drop (length label + 4) cs)
           else (''['' @ label @ '']('' @ links ! linkIndex @ '')'')
                  @ replace_links links (linkIndex + 1) (drop (length label + 4) cs)))"

text \<open>The links of one executed result: those that are strings with a non-blank trim.\<close>

definition items_of :: "function_result \<Rightarrow> item list" where
  "items_of r = (case r of FindContentResult its \<Rightarrow> its | _ \<Rightarrow> [])"

definition usable_link :: "string option \<Rightarrow> bool" where
  "usable_link l = (case l of None \<Rightarrow> False | Some u \<Rightarrow> length (trim u) > 0)"

definition collect_links :: "executed_tool_result list \<Rightarrow> string list" where
  "collect_links toolResults =
     concat (map (\<lambda>result. map the (filter usable_link (map it_link (items_of (snd result)))))
               (filter (\<lambda>result. fst result = ''find_content'') toolResults))"

definition replacePlaceholderLinksWithToolUrls :: "string \<Rightarrow> executed_tool_result list \<Rightarrow> string" where
  "replacePlaceholderLinksWithToolUrls text toolResults =
     (if text = [] then text
      else let links = collect_links toolResults in
        if length links = 0 then text
        else replace_links links 0 text)"

subsection \<open>The positional reading of the rewriting\<close>









section \<open>Messages, requests and the outside world\<close>

datatype role = User | Assistant | System | Function | Tool

text \<open>A tool call of an assistant message: its id and \<^verbatim>\<open>function.{name, arguments}\<close>.\<close>

record tool_call =
  tc_id :: string
  tc_name :: string
  tc_arguments :: string

record message =
  m_role :: role
  m_content :: string
  m_tool_calls :: "tool_call list option"
  m_tool_call_id :: "string option"
  m_name :: "string option"

text \<open>
  Requests to the Content Backend, each with the \<^verbatim>\<open>token\<close> header when the caller
  has a user token:
  \<^verbatim>\<open>GET /api/v1/posts?type=..&q[title_cont]=..\<close>,
  \<^verbatim>\<open>POST /api/v1/posts\<close> and \<^verbatim>\<open>PUT /posts/{id}/api_update\<close>.
\<close>

record create_post_payload =
  pp_title :: string
  pp_post_type :: string
  pp_body :: string
  pp_subject_id :: "string option"
  pp_problem_id :: "string option"

record update_post_payload =
  up_title :: "string option"
  up_content_body :: "string option"
  up_content_attributes_body :: "string option"

datatype backend_request =
    GetPosts "string option" string string
  | PostPosts "string option" create_post_payload
  | PutApiUpdate "string option" string update_post_payload


text \<open>
  The backend's answer: \<^verbatim>\<open>fetch\<close> rejects, or there is a response with its status and
  status text and, of the JSON body (an empty object when the body does not parse),
  \<^verbatim>\<open>message\<close> and \<^verbatim>\<open>content\<close>.
\<close>

datatype content = ContentArray "raw list" | ContentRecord "(string \<times> raw) list" | ContentOther

record http_response =
  hr_status :: nat
  hr_statusText :: string
  hr_message :: "string option"
  hr_content :: content

datatype backend_reply = FetchFailed string | Replied http_response

definition response_ok :: "http_response \<Rightarrow> bool" where
  "response_ok r \<longleftrightarrow> 200 \<le> hr_status r \<and> hr_status r \<le> 299"

text \<open>
  Requests to the Language-Model Service: the messages and the tool choice (the model
  name, the tool specifications and the extra headers are the same in every request).
  The answer is no response at all (network failure, timeout; with the message of the
  error the HTTP client raises), or a status and a body, of which the handler reads
  \<^verbatim>\<open>choices[0].message\<close> and \<^verbatim>\<open>error\<close>.
\<close>

datatype tool_choice = Auto | NoTools

record llm_request =
  lr_messages :: "message list"
  lr_tool_choice :: tool_choice

datatype error_field = ErrorString string | ErrorObject "string option"

record llm_data =
  ld_message :: "message option"
  ld_error :: "error_field option"

datatype llm_reply = NoResponse string | HttpReply nat llm_data

text \<open>
  The state the handler reads and writes: the module-level tool-result cache (keyed by
  the pair of query and type from which the source builds its key text
  \<^verbatim>\<open>find_content|{"query":..,"type":..}\<close>) and conversation store, the requests sent so
  far, the executor calls made so far (name and arguments), and how often the clock
  was read.
\<close>

record world =
  w_cache :: "(string \<times> string) \<rightharpoonup> (int \<times> item list)"
  w_store :: "string \<rightharpoonup> message list"
  w_backend_log :: "backend_request list"
  w_llm_log :: "llm_request list"
  w_invocations :: "(string \<times> function_args) list"
  w_clock_reads :: nat

text \<open>
  What the handler does not control: configuration, the system prompt, the fresh
  conversation id, the clock (the value of the \<open>n\<close>-th read, in milliseconds), the two
  services (the answer to the \<open>n\<close>-th request), and
  \<^verbatim>\<open>JSON.parse\<close>/\<^verbatim>\<open>JSON.stringify\<close>.  Parsing an argument text gives the message of
  the \<^verbatim>\<open>SyntaxError\<close>, or the argument object together with the text
  \<^verbatim>\<open>JSON.stringify\<close> gives back for it.
\<close>

record env =
  e_OPENROUTER_API_KEY :: "string option"
  e_MAX_CONTEXT_MESSAGES :: int
  e_MAX_STORED_MESSAGES :: int
  e_SYSTEM_PROMPT :: string
  e_randomUUID :: string
  e_Date_now :: "nat \<Rightarrow> int"
  e_backend :: "nat \<Rightarrow> backend_request \<Rightarrow> backend_reply"
  e_llm :: "nat \<Rightarrow> llm_request \<Rightarrow> llm_reply"
  e_JSON_parse :: "string \<Rightarrow> string + (function_args \<times> string)"
  e_stringify_result :: "function_result \<Rightarrow> string"
  e_stringify_error :: "string \<Rightarrow> string"

definition Date_now :: "env \<Rightarrow> world \<Rightarrow> int \<times> world" where
  "Date_now env w = (e_Date_now env (w_clock_reads w), w\<lparr>w_clock_reads := Suc (w_clock_reads w)\<rparr>)"

definition fetch :: "env \<Rightarrow> backend_request \<Rightarrow> world \<Rightarrow> backend_reply \<times> world" where
  "fetch env request w =
     (e_backend env (length (w_backend_log w)) request,
      w\<lparr>w_backend_log := w_backend_log w @ [request]\<rparr>)"

text \<open>JavaScript truthiness of an optional string, and \<^verbatim>\<open>x || d\<close>.\<close>

definition truthy :: "string option \<Rightarrow> bool" where
  "truthy x = (case x of None \<Rightarrow> False | Some s \<Rightarrow> s \<noteq> [])"

definition or_else :: "string option \<Rightarrow> string \<Rightarrow> string" where
  "or_else x d = (if truthy x then the x else d)"

definition token_header :: "string option \<Rightarrow> string option" where
  "token_header userToken = (if truthy userToken then userToken else None)"

section \<open>The tool executors (\<^verbatim>\<open>getFunctions\<close>)\<close>

text \<open>
  An executor takes the arguments and the world and gives the result, or the message of
  the error it throws, and the world as it left it.
\<close>

type_synonym executor = "env \<Rightarrow> string option \<Rightarrow> function_args \<Rightarrow> world \<Rightarrow> (string + function_result) \<times> world"

definition isFindContentArgs :: "function_args \<Rightarrow> bool" where
  "isFindContentArgs args \<longleftrightarrow> a_query args \<noteq> None"

definition isCreateContentArgs :: "function_args \<Rightarrow> bool" where
  "isCreateContentArgs args \<longleftrightarrow>
     a_title args \<noteq> None \<and> a_description args \<noteq> None \<and> a_content_type args \<noteq> None"

definition isEditContentArgs :: "function_args \<Rightarrow> bool" where
  "isEditContentArgs args \<longleftrightarrow> a_content_id args \<noteq> None \<and> a_changes args \<noteq> None"

definition TOOL_CACHE_TTL_MS :: int where
  "TOOL_CACHE_TTL_MS = 5000"

definition request_failed :: "http_response \<Rightarrow> string" where
  "request_failed r =
     ''API request failed: '' @ decimal (hr_status r) @ '' - ''
       @ or_else (hr_message r) (hr_statusText r)"

subsection \<open>\<^verbatim>\<open>find_content\<close>\<close>

definition isNeedpediaPost :: "raw \<Rightarrow> bool" where
  "isNeedpediaPost v = (case v of RawPost p \<Rightarrow> np_title p \<noteq> None \<or> np_post_type p \<noteq> None | _ \<Rightarrow> False)"

definition post_of :: "raw \<Rightarrow> needpedia_post" where
  "post_of v = (case v of RawPost p \<Rightarrow> p
                | _ \<Rightarrow> \<lparr>np_id = None, np_title = None, np_post_type = None,
                        np_link = None, np_url = None, np_post_url = None\<rparr>)"

definition normalizePostArray :: "raw option \<Rightarrow> needpedia_post list" where
  "normalizePostArray v =
     (case v of Some (RawArray xs) \<Rightarrow> map post_of (filter isNeedpediaPost xs) | _ \<Rightarrow> [])"

definition is_array :: "raw \<Rightarrow> bool" where
  "is_array v = (case v of RawArray _ \<Rightarrow> True | _ \<Rightarrow> False)"

definition post_source :: "string \<Rightarrow> content \<Rightarrow> needpedia_post list" where
  "post_source postType c =
     (case c of
        ContentArray xs \<Rightarrow> normalizePostArray (Some (RawArray xs))
      | ContentRecord bucket \<Rightarrow>
          (let source =
             (if postType = ''problem'' \<or> postType = ''problems''
                then normalizePostArray (map_of bucket ''problems'')
              else if postType = ''idea'' \<or> postType = ''ideas''
                then normalizePostArray (map_of bucket ''ideas'')
              else normalizePostArray (map_of bucket ''subjects''))
           in if length source = 0
              then normalizePostArray (List.find is_array (map snd bucket))
              else source)
      | ContentOther \<Rightarrow> [])"

definition first_truthy :: "string option list \<Rightarrow> string option" where
  "first_truthy xs = (case List.find truthy xs of None \<Rightarrow> None | Some x \<Rightarrow> x)"

definition to_item :: "string \<Rightarrow> needpedia_post \<Rightarrow> item" where
  "to_item postType p =
     \<lparr>it_title = or_else (np_title p) ''Untitled'',
      it_type = or_else (np_post_type p) postType,
      it_id = np_id p,
      it_link = first_truthy [np_link p, np_url p, np_post_url p]\<rparr>"

text \<open>The part of \<^verbatim>\<open>find_content\<close> behind the cache lookup.\<close>

definition find_content_fetch ::
  "env \<Rightarrow> string option \<Rightarrow> string \<Rightarrow> string \<Rightarrow> (string \<times> string) \<Rightarrow> int \<Rightarrow> world
     \<Rightarrow> (string + function_result) \<times> world" where
  "find_content_fetch env userToken query postType cacheKey now w =
     (case fetch env (GetPosts (token_header userToken) postType query) w of
        (FetchFailed msg, w1) \<Rightarrow> (Inl msg, w1)
      | (Replied response, w1) \<Rightarrow>
          if \<not> response_ok response then (Inl (request_failed response), w1)
          else
            let items = map (to_item postType) (post_source postType (hr_content response))
            in (Inr (FindContentResult items),
                w1\<lparr>w_cache := (w_cache w1)(cacheKey \<mapsto> (now + TOOL_CACHE_TTL_MS, items))\<rparr>))"

definition find_content :: executor where
  "find_content env userToken args w =
     (if \<not> isFindContentArgs args then (Inl ''Invalid arguments for content search'', w)
      else
        let postType = toLowerCase (or_else (a_type args) ''all'');
            cacheKey = (or_else (a_query args) [], postType);
            (now, w1) = Date_now env w
        in case w_cache w1 cacheKey of
             Some (expiryMs, payload) \<Rightarrow>
               if expiryMs > now then (Inr (FindContentResult payload), w1)
               else find_content_fetch env userToken (the (a_query args)) postType cacheKey now w1
           | None \<Rightarrow> find_content_fetch env userToken (the (a_query args)) postType cacheKey now w1)"

subsection \<open>\<^verbatim>\<open>create_content\<close>\<close>

definition created_post :: "content \<Rightarrow> raw option" where
  "created_post c = (case c of ContentRecord kv \<Rightarrow> map_of kv ''post'' | _ \<Rightarrow> None)"

definition create_content :: executor where
  "create_content env userToken args w =
     (if \<not> isCreateContentArgs args then (Inl ''Invalid arguments for content creation'', w)
      else
          (let title = the (a_title args);
               description = the (a_description args);
               content_type = the (a_content_type args);
               htmlBody = toRichHtml description;
               plainText = htmlToPlainText htmlBody;
               previewPayload =
                 \<lparr>cp_title = title, cp_content_type = content_type, cp_description = description,
                  cp_html = htmlBody, cp_plain_text = plainText, cp_parent_id = a_parent_id args\<rparr>
           in if a_confirm args \<noteq> Some True then (Inr (CreateRequiresConfirmation previewPayload), w)
              else
                let postData =
                  \<lparr>pp_title = title, pp_post_type = content_type, pp_body = htmlBody,
                   pp_subject_id =
                     (if content_type = ''problem'' \<and> truthy (a_parent_id args)
                      then a_parent_id args else None),
                   pp_problem_id =
                     (if \<not> (content_type = ''problem'' \<and> truthy (a_parent_id args))
                         \<and> content_type = ''idea'' \<and> truthy (a_parent_id args)
                      then a_parent_id args else None)\<rparr>
                in case fetch env (PostPosts (token_header userToken) postData) w of
                     (FetchFailed msg, w1) \<Rightarrow> (Inl msg, w1)
                   | (Replied response, w1) \<Rightarrow>
                       if \<not> response_ok response then (Inl (request_failed response), w1)
                       else (Inr (PostResult (created_post (hr_content response))), w1)))"

subsection \<open>\<^verbatim>\<open>edit_content\<close>\<close>

definition edit_content :: executor where
  "edit_content env userToken args w =
     (if \<not> isEditContentArgs args then (Inl ''Invalid arguments for content editing'', w)
      else
          (let content_id = the (a_content_id args);
               changes = the (a_changes args);
               title = ch_title changes;
               description = ch_description changes;
               html = (if truthy description then Some (toRichHtml (the description)) else None);
               plainText = (if truthy html then Some (htmlToPlainText (the html)) else None);
               previewPayload =
                 \<lparr>ep_content_id = content_id, ep_title = title, ep_description = description,
                  ep_html = html, ep_plain_text = plainText\<rparr>
           in if a_confirm args \<noteq> Some True then (Inr (EditRequiresConfirmation previewPayload), w)
              else
                let postData =
                  \<lparr>up_title = (if truthy title then title else None),
                   up_content_body = (if truthy description \<and> truthy html then html else None),
                   up_content_attributes_body = (if truthy description \<and> truthy html then html else None)\<rparr>
                in case fetch env (PutApiUpdate (token_header userToken) content_id postData) w of
                     (FetchFailed msg, w1) \<Rightarrow> (Inl msg, w1)
                   | (Replied response, w1) \<Rightarrow>
                       if \<not> response_ok response then (Inl (request_failed response), w1)
                       else (Inr (PostResult (created_post (hr_content response))), w1)))"

text \<open>The name-keyed map of the three executors.\<close>

definition funcs :: "string \<Rightarrow> executor option" where
  "funcs name =
     (if name = ''find_content'' then Some find_content
      else if name = ''create_content'' then Some create_content
      else if name = ''edit_content'' then Some edit_content
      else None)"

subsection \<open>Reading the cache\<close>




section \<open>The request handler (\<^verbatim>\<open>POST\<close>)\<close>

text \<open>
  What can be thrown inside the handler: the HTTP client's error (its message and, when
  the service answered, the status and body of the answer), or any other
  \<^verbatim>\<open>Error\<close> with its message.
\<close>

datatype exn = AxiosError string "(nat \<times> llm_data) option" | Error string

definition status_message :: "nat \<Rightarrow> string" where
  "status_message status = ''Request failed with status code '' @ decimal status"

text \<open>
  \<^verbatim>\<open>openRouterClient.post('/chat/completions', ...)\<close>: the client resolves with the
  body for a status from 200 to 299 and rejects otherwise.
\<close>

definition axios_post :: "env \<Rightarrow> llm_request \<Rightarrow> world \<Rightarrow> (exn + llm_data) \<times> world" where
  "axios_post env request w =
     (let w1 = w\<lparr>w_llm_log := w_llm_log w @ [request]\<rparr> in
      case e_llm env (length (w_llm_log w)) request of
        NoResponse msg \<Rightarrow> (Inl (AxiosError msg None), w1)
      | HttpReply status body \<Rightarrow>
          if 200 \<le> status \<and> status < 300 then (Inr body, w1)
          else (Inl (AxiosError (status_message status) (Some (status, body))), w1))"

text \<open>The response of the handler: status, and either the error text or the answer.\<close>

record response =
  rs_status :: nat
  rs_error :: "string option"
  rs_conversationId :: "string option"
  rs_message :: "message option"

definition getErrorMessage :: "exn \<Rightarrow> string" where
  "getErrorMessage error = (case error of AxiosError msg _ \<Rightarrow> msg | Error msg \<Rightarrow> msg)"

text \<open>The \<^verbatim>\<open>catch\<close> block of the handler.\<close>

definition error_response :: "exn \<Rightarrow> response" where
  "error_response error =
     (let upstream = (case error of AxiosError _ r \<Rightarrow> r | Error _ \<Rightarrow> None);
          responseData_error = (case upstream of Some (_, body) \<Rightarrow> ld_error body | None \<Rightarrow> None)
      in \<lparr>rs_status = (case upstream of
                         Some (status, _) \<Rightarrow> if status = 0 then 500 else status
                       | None \<Rightarrow> 500),
          rs_error = Some (case responseData_error of
                             Some (ErrorString s) \<Rightarrow> s
                           | Some (ErrorObject m) \<Rightarrow> or_else m (getErrorMessage error)
                           | None \<Rightarrow> getErrorMessage error),
          rs_conversationId = None,
          rs_message = None\<rparr>)"

subsection \<open>Context trimming\<close>

text \<open>\<^verbatim>\<open>xs.slice(-k)\<close> for a positive integer \<open>k\<close>: the last \<open>k\<close> elements.\<close>

definition slice_last :: "nat \<Rightarrow> 'a list \<Rightarrow> 'a list" where
  "slice_last k xs = drop (length xs - k) xs"

definition requestMessages_of :: "int \<Rightarrow> message list \<Rightarrow> message list" where
  "requestMessages_of MAX_CONTEXT_MESSAGES joined =
     (if int (length joined) \<le> MAX_CONTEXT_MESSAGES then joined
      else
        let system = (case joined of m # _ \<Rightarrow> if m_role m = System then [m] else [] | [] \<Rightarrow> []);
            tail = slice_last (nat (max 1 (MAX_CONTEXT_MESSAGES - int (length system)))) joined
        in system @ tail)"

text \<open>\<^verbatim>\<open>conversationStore.append\<close>\<close>

definition store_append :: "string \<Rightarrow> message list \<Rightarrow> int \<Rightarrow> world \<Rightarrow> world" where
  "store_append conversationId messages maxMessages w =
     (let current = (case w_store w conversationId of Some h \<Rightarrow> h | None \<Rightarrow> []);
          updated = current @ messages;
          trimmed = (if maxMessages > 0 then slice_last (nat maxMessages) updated else updated)
      in w\<lparr>w_store := (w_store w)(conversationId \<mapsto> trimmed)\<rparr>)"

subsection \<open>One round of tool calls\<close>

definition tool_message :: "string \<Rightarrow> string \<Rightarrow> string \<Rightarrow> message" where
  "tool_message call_id name content =
     \<lparr>m_role = Tool, m_content = content, m_tool_calls = None,
      m_tool_call_id = Some call_id, m_name = Some name\<rparr>"

text \<open>
  The variables of a round: \<^verbatim>\<open>toolResults\<close>, \<^verbatim>\<open>roundMemo\<close> and (living across
  rounds) \<^verbatim>\<open>executedToolResults\<close>.
\<close>

type_synonym round_state =
  "message list \<times> (string \<rightharpoonup> (string \<times> string)) \<times> executed_tool_result list"

text \<open>\<^verbatim>\<open>argsString || '{}'\<close>\<close>

definition argument_text :: "tool_call \<Rightarrow> string" where
  "argument_text toolCall = (if tc_arguments toolCall = [] then ''{}'' else tc_arguments toolCall)"

text \<open>
  The body of the \<^verbatim>\<open>for\<close> loop.  \<^verbatim>\<open>JSON.parse\<close> stands before the \<^verbatim>\<open>try\<close>
  block, so its error leaves the loop; what the executor throws is caught and becomes
  the content of the tool message.
\<close>

definition run_tool_call ::
  "env \<Rightarrow> string option \<Rightarrow> tool_call \<Rightarrow> round_state \<Rightarrow> world \<Rightarrow> (exn + round_state) \<times> world" where
  "run_tool_call env userToken toolCall st w =
     (case st of (toolResults, roundMemo, executedToolResults) \<Rightarrow>
      let name = tc_name toolCall
      in case e_JSON_parse env (argument_text toolCall) of
           Inl msg \<Rightarrow> (Inl (Error msg), w)
         | Inr (args, stableArgs) \<Rightarrow>
             let roundKey = name @ ''|'' @ stableArgs in
             case roundMemo roundKey of
               Some (cached_name, cached_content) \<Rightarrow>
                 (Inr (toolResults @ [tool_message (tc_id toolCall) cached_name cached_content],
                       roundMemo, executedToolResults), w)
             | None \<Rightarrow>
                 (case funcs name of
                    None \<Rightarrow>
                      (Inr (toolResults @ [tool_message (tc_id toolCall) name
                                             (e_stringify_error env (''Unsupported tool: '' @ name))],
                            roundMemo, executedToolResults), w)
                  | Some toolFunction \<Rightarrow>
                      (case toolFunction env userToken args
                              (w\<lparr>w_invocations := w_invocations w @ [(name, args)]\<rparr>) of
                         (Inl msg, w1) \<Rightarrow>
                           (Inr (toolResults @ [tool_message (tc_id toolCall) name
                                                  (e_stringify_error env msg)],
                                 roundMemo, executedToolResults), w1)
                       | (Inr result, w1) \<Rightarrow>
                           let payload = e_stringify_result env result in
                           (Inr (toolResults @ [tool_message (tc_id toolCall) name payload],
                                 roundMemo(roundKey \<mapsto> (name, payload)),
                                 executedToolResults @ [(name, result)]), w1))))"

fun run_tool_calls ::
  "env \<Rightarrow> string option \<Rightarrow> tool_call list \<Rightarrow> round_state \<Rightarrow> world \<Rightarrow> (exn + round_state) \<times> world" where
  "run_tool_calls env userToken [] st w = (Inr st, w)"
| "run_tool_calls env userToken (toolCall # rest) st w =
     (case run_tool_call env userToken toolCall st w of
        (Inl e, w1) \<Rightarrow> (Inl e, w1)
      | (Inr st1, w1) \<Rightarrow> run_tool_calls env userToken rest st1 w1)"

subsection \<open>The rounds\<close>

definition has_tool_calls :: "message \<Rightarrow> bool" where
  "has_tool_calls m = (case m_tool_calls m of None \<Rightarrow> False | Some tcs \<Rightarrow> length tcs > 0)"

definition tool_calls_of :: "message \<Rightarrow> tool_call list" where
  "tool_calls_of m = (case m_tool_calls m of None \<Rightarrow> [] | Some tcs \<Rightarrow> tcs)"

text \<open>
  Reading \<^verbatim>\<open>choices[0].message\<close> of a follow-up answer that has none raises a
  \<^verbatim>\<open>TypeError\<close> (at that read or at the next use of the message); its text is the
  engine's.
\<close>

definition undefined_read :: string where
  "undefined_read = ''Cannot read properties of undefined''"

definition message_of :: "llm_data \<Rightarrow> exn + message" where
  "message_of body = (case ld_message body of None \<Rightarrow> Inl (Error undefined_read) | Some m \<Rightarrow> Inr m)"

text \<open>
  The body of the \<^verbatim>\<open>while\<close> loop: the round's tool calls, the follow-up request,
  and, when the follow-up answer has neither content nor tool calls, one more request
  with tool choice \<^verbatim>\<open>none\<close> and a \<^verbatim>\<open>break\<close>.
\<close>

datatype round_outcome =
    Break message "executed_tool_result list"
  | Continue message "executed_tool_result list"

definition tool_round ::
  "env \<Rightarrow> string option \<Rightarrow> message list \<Rightarrow> message \<Rightarrow> executed_tool_result list \<Rightarrow> world
     \<Rightarrow> (exn + round_outcome) \<times> world" where
  "tool_round env userToken requestMessages assistantMessage executedToolResults w =
     (case run_tool_calls env userToken (tool_calls_of assistantMessage)
             ([], Map.empty, executedToolResults) w of
        (Inl e, w1) \<Rightarrow> (Inl e, w1)
      | (Inr (toolResults, roundMemo, executed1), w1) \<Rightarrow>
          let updatedMessages = requestMessages @ [assistantMessage] @ toolResults in
          (case axios_post env \<lparr>lr_messages = updatedMessages, lr_tool_choice = Auto\<rparr> w1 of
             (Inl e, w2) \<Rightarrow> (Inl e, w2)
           | (Inr followup, w2) \<Rightarrow>
               (case message_of followup of
                  Inl e \<Rightarrow> (Inl e, w2)
                | Inr next_message \<Rightarrow>
                    if m_content next_message = [] \<and> \<not> has_tool_calls next_message then
                      (case axios_post env \<lparr>lr_messages = updatedMessages, lr_tool_choice = NoTools\<rparr> w2 of
                         (Inl e, w3) \<Rightarrow> (Inl e, w3)
                       | (Inr final, w3) \<Rightarrow>
                           (case message_of final of
                              Inl e \<Rightarrow> (Inl e, w3)
                            | Inr final_message \<Rightarrow> (Inr (Break final_message executed1), w3)))
                    else (Inr (Continue next_message executed1), w2))))"

text \<open>
  The \<^verbatim>\<open>while\<close> loop, from an assistant message, the executed results so far and
  \<^verbatim>\<open>safetyCounter\<close>.  It ends with the last assistant message, the executed results
  and the counter, or with what was thrown.
\<close>

function tool_loop ::
  "env \<Rightarrow> string option \<Rightarrow> message list \<Rightarrow> message \<Rightarrow> executed_tool_result list \<Rightarrow> nat \<Rightarrow> world
     \<Rightarrow> (exn + (message \<times> executed_tool_result list \<times> nat)) \<times> world" where
  "tool_loop env userToken requestMessages assistantMessage executedToolResults safetyCounter w =
     (if has_tool_calls assistantMessage \<and> safetyCounter < 5 then
        (case tool_round env userToken requestMessages assistantMessage executedToolResults w of
           (Inl e, w1) \<Rightarrow> (Inl e, w1)
         | (Inr (Break final_message executed1), w1) \<Rightarrow>
             (Inr (final_message, executed1, Suc safetyCounter), w1)
         | (Inr (Continue next_message executed1), w1) \<Rightarrow>
             tool_loop env userToken requestMessages next_message executed1 (Suc safetyCounter) w1)
      else (Inr (assistantMessage, executedToolResults, safetyCounter), w))"
  by pat_completeness auto
termination
  by (relation "measure (\<lambda>(env, userToken, requestMessages, assistantMessage, executed, safetyCounter, w). 5 - safetyCounter)") auto

subsection \<open>The handler\<close>

definition fallback_with_tools :: string where
  "fallback_with_tools = ''I've processed your request using the available tools. Please let me know if you need any additional information.''"

definition fallback_plain :: string where
  "fallback_plain = ''I've processed your request. Please let me know if you need any additional information.''"

text \<open>The two steps behind the loop: the fallback for an empty answer, and the links.\<close>

definition ensure_content :: "message \<Rightarrow> message" where
  "ensure_content assistantMessage =
     (if m_content assistantMessage = [] \<or> trim (m_content assistantMessage) = []
      then assistantMessage\<lparr>m_content :=
             (if has_tool_calls assistantMessage then fallback_with_tools else fallback_plain)\<rparr>
      else assistantMessage)"

definition finish_message :: "message \<Rightarrow> executed_tool_result list \<Rightarrow> message" where
  "finish_message assistantMessage executedToolResults =
     (let m = ensure_content assistantMessage
      in m\<lparr>m_content := replacePlaceholderLinksWithToolUrls (m_content m) executedToolResults\<rparr>)"

record chat_request =
  rq_messages :: "message list"
  rq_conversationId :: "string option"
  rq_userToken :: "string option"

text \<open>The \<^verbatim>\<open>try\<close> block behind the token check.\<close>

definition POST_try ::
  "env \<Rightarrow> chat_request \<Rightarrow> string \<Rightarrow> message list \<Rightarrow> world \<Rightarrow> (exn + response) \<times> world" where
  "POST_try env req conversation requestMessages w =
     (if \<not> truthy (e_OPENROUTER_API_KEY env) then (Inl (Error ''OpenRouter API key is not configured''), w)
      else
        case axios_post env \<lparr>lr_messages = requestMessages, lr_tool_choice = Auto\<rparr> w of
          (Inl e, w1) \<Rightarrow> (Inl e, w1)
        | (Inr body, w1) \<Rightarrow>
            (case ld_message body of
               None \<Rightarrow> (Inl (Error ''Invalid response from OpenRouter API''), w1)
             | Some assistantMessage \<Rightarrow>
                 (case tool_loop env (rq_userToken req) requestMessages assistantMessage [] 0 w1 of
                    (Inl e, w2) \<Rightarrow> (Inl e, w2)
                  | (Inr (last_message, executedToolResults, rounds), w2) \<Rightarrow>
                      let answer = finish_message last_message executedToolResults;
                          toAppend = rq_messages req @ [answer]
                      in (Inr \<lparr>rs_status = 200, rs_error = None,
                               rs_conversationId = Some conversation, rs_message = Some answer\<rparr>,
                          store_append conversation toAppend (e_MAX_STORED_MESSAGES env) w2))))"

definition conversation_of :: "env \<Rightarrow> chat_request \<Rightarrow> string" where
  "conversation_of env req = or_else (rq_conversationId req) (e_randomUUID env)"

text \<open>\<^verbatim>\<open>requestMessages\<close>: the stored history, led by the system prompt, and the new messages, trimmed.\<close>

definition context_messages :: "env \<Rightarrow> chat_request \<Rightarrow> world \<Rightarrow> message list" where
  "context_messages env req w =
     (let existingHistory = (case w_store w (conversation_of env req) of Some h \<Rightarrow> h | None \<Rightarrow> []);
          hasSystem = list_ex (\<lambda>m. m_role m = System) existingHistory;
          baseHistory =
            (if hasSystem then existingHistory
             else \<lparr>m_role = System, m_content = e_SYSTEM_PROMPT env, m_tool_calls = None,
                    m_tool_call_id = None, m_name = None\<rparr> # existingHistory)
      in requestMessages_of (e_MAX_CONTEXT_MESSAGES env) (baseHistory @ rq_messages req))"

definition POST :: "env \<Rightarrow> chat_request \<Rightarrow> world \<Rightarrow> response \<times> world" where
  "POST env req w =
     (if \<not> truthy (rq_userToken req)
      then (\<lparr>rs_status = 401, rs_error = Some ''Unauthenticated: missing user token'',
             rs_conversationId = None, rs_message = None\<rparr>, w)
      else
        case POST_try env req (conversation_of env req) (context_messages env req w) w of
          (Inl e, w1) \<Rightarrow> (error_response e, w1)
        | (Inr r, w1) \<Rightarrow> (r, w1))"

text \<open>The first request to the model, and what the \<^verbatim>\<open>catch\<close> block reports for a rejected one.\<close>

definition first_request :: "env \<Rightarrow> chat_request \<Rightarrow> world \<Rightarrow> llm_request" where
  "first_request env req w = \<lparr>lr_messages = context_messages env req w, lr_tool_choice = Auto\<rparr>"

definition upstream_message :: "nat \<Rightarrow> llm_data \<Rightarrow> string" where
  "upstream_message status body =
     (case ld_error body of
        Some (ErrorString s) \<Rightarrow> s
      | Some (ErrorObject m) \<Rightarrow> or_else m (status_message status)
      | None \<Rightarrow> status_message status)"

text \<open>What the executors leave alone: the model's request log, the log of executor calls, the conversation store.\<close>

definition same_handler_state :: "world \<Rightarrow> world \<Rightarrow> bool" where
  "same_handler_state w w' \<longleftrightarrow>
     w_llm_log w' = w_llm_log w \<and> w_invocations w' = w_invocations w \<and> w_store w' = w_store w"









text \<open>Two tool calls ask for the same: same tool name, same argument text.\<close>

definition same_call :: "tool_call \<Rightarrow> tool_call \<Rightarrow> bool" where
  "same_call a b \<longleftrightarrow> tc_name a = tc_name b \<and> tc_arguments a = tc_arguments b"


section \<open>Example inputs\<close>

text \<open>
  Concrete worlds, arguments and environments for the examples further down.  The
  example \<^verbatim>\<open>JSON.parse\<close> knows the argument texts the examples use and rejects the one
  text among them that is not JSON; the example \<^verbatim>\<open>JSON.stringify\<close> keeps results
  apart by their kind only.
\<close>

definition empty_world :: world where
  "empty_world =
     \<lparr>w_cache = Map.empty, w_store = Map.empty, w_backend_log = [], w_llm_log = [],
      w_invocations = [], w_clock_reads = 0\<rparr>"

definition no_args :: function_args where
  "no_args =
     \<lparr>a_query = None, a_type = None, a_title = None, a_description = None,
      a_content_type = None, a_parent_id = None, a_confirm = None, a_content_id = None,
      a_changes = None\<rparr>"

definition search_args :: function_args where
  "search_args = no_args\<lparr>a_query := Some ''bike lanes''\<rparr>"

definition create_args :: function_args where
  "create_args = no_args\<lparr>a_title := Some ''Bike lanes'', a_description := Some ''Safer streets'',
                         a_content_type := Some ''idea''\<rparr>"

definition edit_args :: function_args where
  "edit_args = no_args\<lparr>a_content_id := Some ''42'',
                       a_changes := Some \<lparr>ch_title = Some ''Bike lanes'', ch_description = None\<rparr>\<rparr>"

definition search_text :: string where
  "search_text = ''{'' @ [DQ] @ ''query'' @ [DQ] @ '':'' @ [DQ] @ ''bike lanes'' @ [DQ] @ ''}''"

definition broken_text :: string where
  "broken_text = ''{'' @ [DQ] @ ''query'' @ [DQ] @ '':''"

definition example_parse :: "string \<Rightarrow> string + (function_args \<times> string)" where
  "example_parse s =
     (if s = ''{}'' then Inr (no_args, ''{}'')
      else if s = search_text then Inr (search_args, search_text)
      else Inl ''Unexpected end of JSON input'')"

definition example_stringify_result :: "function_result \<Rightarrow> string" where
  "example_stringify_result r =
     (case r of
        FindContentResult _ \<Rightarrow> ''{items}''
      | CreateRequiresConfirmation _ \<Rightarrow> ''{requires_confirmation,preview}''
      | EditRequiresConfirmation _ \<Rightarrow> ''{requires_confirmation,preview}''
      | PostResult _ \<Rightarrow> ''{post}'')"

definition example_stringify_error :: "string \<Rightarrow> string" where
  "example_stringify_error msg = ''{error:'' @ msg @ ''}''"

definition unavailable :: http_response where
  "unavailable = \<lparr>hr_status = 503, hr_statusText = ''Service Unavailable'',
                   hr_message = None, hr_content = ContentOther\<rparr>"

definition plain_answer :: message where
  "plain_answer = \<lparr>m_role = Assistant, m_content = ''Here you are.'', m_tool_calls = None,
                    m_tool_call_id = None, m_name = None\<rparr>"

text \<open>
  An example environment: the key is configured, the clock advances one second a read,
  the backend answers every request with 503, the model answers every request with a
  plain text.
\<close>

definition example_env :: env where
  "example_env =
     \<lparr>e_OPENROUTER_API_KEY = Some ''sk-or-example'',
      e_MAX_CONTEXT_MESSAGES = 16,
      e_MAX_STORED_MESSAGES = 64,
      e_SYSTEM_PROMPT = ''You are Lotte, assistant for Needpedia.org.'',
      e_randomUUID = ''00000000-0000-4000-8000-000000000000'',
      e_Date_now = (\<lambda>n. 1000 * int n),
      e_backend = (\<lambda>n request. Replied unavailable),
      e_llm = (\<lambda>n request. HttpReply 200 \<lparr>ld_message = Some plain_answer, ld_error = None\<rparr>),
      e_JSON_parse = example_parse,
      e_stringify_result = example_stringify_result,
      e_stringify_error = example_stringify_error\<rparr>"

text \<open>A backend that finds one post for every search and accepts every write.\<close>

definition found_post :: needpedia_post where
  "found_post = \<lparr>np_id = Some ''7'', np_title = Some ''Bike lanes'', np_post_type = Some ''idea'',
                 np_link = Some ''https://needpedia.org/posts/7'', np_url = None, np_post_url = None\<rparr>"

definition helpful_backend :: "nat \<Rightarrow> backend_request \<Rightarrow> backend_reply" where
  "helpful_backend n request =
     Replied \<lparr>hr_status = 200, hr_statusText = ''OK'', hr_message = None,
              hr_content = (case request of
                              GetPosts _ _ _ \<Rightarrow> ContentArray [RawPost found_post]
                            | _ \<Rightarrow> ContentRecord [(''post'', RawPost found_post)])\<rparr>"

text \<open>Arguments for \<^verbatim>\<open>create_content\<close> that lack the description.\<close>

definition incomplete_args :: function_args where
  "incomplete_args = no_args\<lparr>a_title := Some ''Bike lanes'', a_content_type := Some ''idea''\<rparr>"

text \<open>
  A request of an authenticated caller, assistant messages that ask for tool calls, and
  a model that answers its \<open>n\<close>-th request with the \<open>n\<close>-th reply of a script (and
  with status 503 behind the script's end).
\<close>

definition user_request :: chat_request where
  "user_request =
     \<lparr>rq_messages = [\<lparr>m_role = User, m_content = ''find ideas about bike lanes'',
                       m_tool_calls = None, m_tool_call_id = None, m_name = None\<rparr>],
      rq_conversationId = None,
      rq_userToken = Some ''user-token''\<rparr>"

definition asking :: "tool_call list \<Rightarrow> message" where
  "asking calls = \<lparr>m_role = Assistant, m_content = [], m_tool_calls = Some calls,
                    m_tool_call_id = None, m_name = None\<rparr>"

definition search_call :: "string \<Rightarrow> tool_call" where
  "search_call call_id = \<lparr>tc_id = call_id, tc_name = ''find_content'', tc_arguments = search_text\<rparr>"

definition broken_call :: "string \<Rightarrow> tool_call" where
  "broken_call call_id = \<lparr>tc_id = call_id, tc_name = ''find_content'', tc_arguments = broken_text\<rparr>"

definition overloaded_reply :: llm_reply where
  "overloaded_reply = HttpReply 503 \<lparr>ld_message = None, ld_error = Some (ErrorString ''Service overloaded'')\<rparr>"

definition says :: "message \<Rightarrow> llm_reply" where
  "says m = HttpReply 200 \<lparr>ld_message = Some m, ld_error = None\<rparr>"

definition scripted :: "llm_reply list \<Rightarrow> nat \<Rightarrow> llm_request \<Rightarrow> llm_reply" where
  "scripted script n request = (if n < length script then script ! n else overloaded_reply)"



text \<open>A model whose first answer holds a call with broken arguments before a good one.\<close>

definition broken_env :: env where
  "broken_env = example_env\<lparr>e_llm := scripted [says (asking [broken_call ''call_1'', search_call ''call_2''])]\<rparr>"



section \<open>Rich text: proofs\<close>

subsection \<open>Global replacement\<close>

lemma gsub_Cons_None: "m (c # cs) = None \<Longrightarrow> gsub m (c # cs) = c # gsub m cs"
  by simp

lemma gsub_Cons_Some: "m (c # cs) = Some (r, n) \<Longrightarrow> gsub m (c # cs) = r @ gsub m (drop (n - 1) cs)"
  by simp

lemma gsub_skip:
  assumes "\<And>s. m s \<noteq> None \<Longrightarrow> take 1 s = [c]" "c \<notin> set xs"
  shows "gsub m (xs @ ys) = xs @ gsub m ys"
  using assms(2)
proof (induction xs)
  case Nil
  then show ?case by simp
next
  case (Cons x xs)
  have "m (x # xs @ ys) = None"
  proof (rule ccontr)
    assume "m (x # xs @ ys) \<noteq> None"
    from assms(1) [OF this] Cons.prems show False by simp
  qed
  with Cons show ?case by simp
qed

lemma gsub_untouched:
  assumes "\<And>s. m s \<noteq> None \<Longrightarrow> take 1 s = [c]" "c \<notin> set xs"
  shows "gsub m xs = xs"
  using gsub_skip [where m = m and c = c and xs = xs and ys = "[]"] assms by simp

lemma gsub_never:
  "(\<And>i. i < length xs \<Longrightarrow> m (drop i xs) = None) \<Longrightarrow> gsub m xs = xs"
proof (induction xs)
  case Nil
  then show ?case by simp
next
  case (Cons x xs)
  have "m (x # xs) = None" using Cons.prems [of 0] by simp
  moreover have "gsub m xs = xs"
  proof (rule Cons.IH)
    fix i assume "i < length xs"
    then show "m (drop i xs) = None" using Cons.prems [of "Suc i"] by simp
  qed
  ultimately show ?case by simp
qed

subsection \<open>What each expression starts with\<close>

lemma br_at_starts: "br_at s \<noteq> None \<Longrightarrow> take 1 s = ''<''"
  by (auto simp: br_at_def split: if_splits)

lemma closing_at_starts: "closing_at s \<noteq> None \<Longrightarrow> take 1 s = ''<''"
  by (auto simp: closing_at_def split: if_splits)

lemma opening_at_starts: "opening_at s \<noteq> None \<Longrightarrow> take 1 s = ''<''"
  by (auto simp: opening_at_def split: if_splits)

lemma tag_at_starts: "tag_at s \<noteq> None \<Longrightarrow> take 1 s = ''<''"
  by (auto simp: tag_at_def split: if_splits)

lemma bold_at_starts: "bold_at s \<noteq> None \<Longrightarrow> take 1 s = ''*''"
  by (cases s) (auto simp: bold_at_def split: if_splits)

lemma italic_at_starts: "italic_at s \<noteq> None \<Longrightarrow> take 1 s = ''*''"
  by (auto simp: italic_at_def split: if_splits)

lemma literally_starts: "literally (c # pat) rep s \<noteq> None \<Longrightarrow> take 1 s = [c]"
  by (cases s) (auto simp: literally_def split: if_splits)

lemma blank_lines_at_starts: "blank_lines_at s \<noteq> None \<Longrightarrow> take 1 s = [LF]"
  by (cases s) (auto simp: blank_lines_at_def Let_def split: if_splits)

subsection \<open>Escaping and inline formatting of plain text\<close>

lemma replace_char_absent: "c \<notin> set s \<Longrightarrow> replace_char c rep s = s"
  by (induction s) (auto simp: replace_char_def)

lemma esc_plain: "special_free s \<Longrightarrow> esc s = s"
  by (simp add: esc_def special_free_def replace_char_absent)

lemma literally_untouched: "c \<notin> set s \<Longrightarrow> gsub (literally (c # pat) rep) s = s"
  by (rule gsub_untouched [where c = c]) (rule literally_starts)

lemma decode_entities_plain: "CHR ''&'' \<notin> set s \<Longrightarrow> decode_entities s = s"
  by (simp add: decode_entities_def literally_untouched)

subsection \<open>Trimming\<close>

lemma trimEnd_append_spaces: "s = trimEnd s @ rev (takeWhile is_space (rev s))"
proof -
  have "rev (takeWhile is_space (rev s) @ dropWhile is_space (rev s)) = rev (rev s)"
    by (simp only: takeWhile_dropWhile_id)
  then show ?thesis by (simp add: trimEnd_def del: takeWhile_dropWhile_id)
qed

lemma trimEnd_last: "trimEnd s \<noteq> [] \<Longrightarrow> \<not> is_space (last (trimEnd s))"
proof -
  assume "trimEnd s \<noteq> []"
  then have n: "dropWhile is_space (rev s) \<noteq> []" by (simp add: trimEnd_def)
  then have "\<not> is_space (hd (dropWhile is_space (rev s)))" by (rule hd_dropWhile)
  with n show ?thesis by (simp add: trimEnd_def last_rev)
qed

lemma trimEnd_fixed: "xs \<noteq> [] \<Longrightarrow> \<not> is_space (last xs) \<Longrightarrow> trimEnd xs = xs"
proof -
  assume "xs \<noteq> []" "\<not> is_space (last xs)"
  then have "dropWhile is_space (rev xs) = rev xs"
    by (cases "rev xs") (auto simp: last_rev)
  then show ?thesis by (simp add: trimEnd_def)
qed

lemma trimEnd_idem: "trimEnd (trimEnd s) = trimEnd s"
proof (cases "trimEnd s = []")
  case True
  then show ?thesis by (simp add: trimEnd_def)
next
  case False
  from False trimEnd_last [OF False] show ?thesis by (rule trimEnd_fixed)
qed

lemma trimEnd_set: "set (trimEnd s) \<subseteq> set s"
  using set_dropWhileD [of _ is_space "rev s"] by (auto simp: trimEnd_def)

lemma trimStart_nonempty: "xs \<noteq> [] \<Longrightarrow> \<not> is_space (last xs) \<Longrightarrow> trimStart xs \<noteq> []"
proof -
  assume "xs \<noteq> []" "\<not> is_space (last xs)"
  then have "last xs \<in> set xs" "\<not> is_space (last xs)" by simp_all
  then have "dropWhile is_space xs \<noteq> []" by (auto simp: dropWhile_eq_Nil_conv)
  then show ?thesis by (simp add: trimStart_def)
qed

lemma trim_trimEnd: "trim (trimEnd s) = trim s"
  by (simp add: trim_def trimEnd_idem)

lemma trim_Nil_iff: "trim s = [] \<longleftrightarrow> trimEnd s = []"
proof
  assume t: "trim s = []"
  show "trimEnd s = []"
  proof (rule ccontr)
    assume n: "trimEnd s \<noteq> []"
    from trimStart_nonempty [OF n trimEnd_last [OF n]] t show False by (simp add: trim_def)
  qed
next
  assume "trimEnd s = []"
  then show "trim s = []" by (simp add: trim_def trimStart_def)
qed

lemma is_space_LF: "is_space LF"
  by (simp add: is_space_def LF_def)

subsection \<open>Lines without markers\<close>

lemma spaces_then_text_None:
  "(case t of [] \<Rightarrow> True | c # _ \<Rightarrow> \<not> is_space c) \<Longrightarrow> spaces_then_text t = None"
  by (cases t) (simp_all add: spaces_then_text_def)

lemma heading_at_None:
  "\<not> hashes_then n is_space line \<Longrightarrow> heading_at n line = None"
  by (auto simp: heading_at_def hashes_then_def intro!: spaces_then_text_None split: list.splits)

lemma list_item_at_None:
  "\<not> bullet_then is_space line \<Longrightarrow> list_item_at line = None"
  by (auto simp: list_item_at_def bullet_then_def intro!: spaces_then_text_None split: list.splits)

subsection \<open>Text without URLs\<close>

lemma link_at_no_scheme: "scheme_length s = None \<Longrightarrow> link_at s = None"
  by (simp add: link_at_def)

lemma link_at_no_run:
  "scheme_length s = Some p \<Longrightarrow> takeWhile url_char (drop p s) = [] \<Longrightarrow> link_at s = None"
  by (simp add: link_at_def)

lemma link_at_plain:
  assumes "CHR ''>'' \<notin> set s" "scheme_length s = Some p" "takeWhile url_char (drop p s) \<noteq> []"
  shows "link_at s \<noteq> None"
proof -
  let ?run = "length (takeWhile url_char (drop p s))"
  have it: "\<And>k. \<not> inside_tag (drop (p + k) s)"
    using assms(1) by (auto simp: inside_tag_def dest!: set_takeWhileD in_set_dropD)
  have "?run \<ge> 1" using assms(3) by (cases "takeWhile url_char (drop p s)") simp_all
  then have "rev [1 ..< Suc ?run] \<noteq> []" by simp
  then obtain k ks where "rev [1 ..< Suc ?run] = k # ks" by (cases "rev [1 ..< Suc ?run]") auto
  then have "List.find (\<lambda>k. \<not> inside_tag (drop (p + k) s)) (rev [1 ..< Suc ?run]) = Some k"
    using it by simp
  then show ?thesis using assms(2) by (simp add: link_at_def Let_def)
qed

lemma scheme_length_cases:
  "scheme_length t = Some p \<Longrightarrow>
   (p = 8 \<and> take 8 t = ''https://'') \<or> (p = 7 \<and> take 7 t = ''http://'' \<and> take 8 t \<noteq> ''https://'')"
  by (auto simp: scheme_length_def split: if_splits)

lemma take_literal_length: "take n t = lit \<Longrightarrow> length lit = n \<Longrightarrow> n \<le> length t"
proof -
  assume "take n t = lit" "length lit = n"
  then have "length (take n t) = n" by simp
  then show ?thesis by simp
qed

lemma take_literal_append: "take n t = lit \<Longrightarrow> length lit = n \<Longrightarrow> take n (t @ u) = lit"
  using take_literal_length [of n t lit] by simp

lemma scheme_length_append:
  assumes "scheme_length t = Some p"
  shows "scheme_length (t @ u) = Some p \<and> p \<le> length t"
proof -
  from scheme_length_cases [OF assms] show ?thesis
  proof
    assume a: "p = 8 \<and> take 8 t = ''https://''"
    then have "take 8 (t @ u) = ''https://''" by (intro take_literal_append) simp_all
    moreover have "8 \<le> length t" using a by (intro take_literal_length [of 8 t "''https://''"]) simp_all
    ultimately show ?thesis using a by (simp add: scheme_length_def)
  next
    assume a: "p = 7 \<and> take 7 t = ''http://'' \<and> take 8 t \<noteq> ''https://''"
    then have 7: "take 7 (t @ u) = ''http://''" by (intro take_literal_append) simp_all
    have l: "7 \<le> length t" using a by (intro take_literal_length [of 7 t "''http://''"]) simp_all
    have "take 8 (t @ u) \<noteq> ''https://''"
    proof
      assume "take 8 (t @ u) = ''https://''"
      then have "take 7 (take 8 (t @ u)) = take 7 ''https://''" by (simp only:)
      then have "take 7 (t @ u) = ''https:/''" by (simp del: take_append)
      with 7 show False by (simp del: take_append)
    qed
    then show ?thesis using a 7 l by (simp add: scheme_length_def del: take_append)
  qed
qed

lemma link_at_Some_run:
  assumes "link_at t \<noteq> None"
  shows "\<exists>p. scheme_length t = Some p \<and> takeWhile url_char (drop p t) \<noteq> []"
proof (cases "scheme_length t")
  case None
  with assms show ?thesis by (simp add: link_at_no_scheme)
next
  case (Some p)
  with assms link_at_no_run [OF Some] show ?thesis by auto
qed

lemma link_at_append:
  assumes "link_at t \<noteq> None" "CHR ''>'' \<notin> set (t @ u)"
  shows "link_at (t @ u) \<noteq> None"
proof -
  from link_at_Some_run [OF assms(1)] obtain p where
    p: "scheme_length t = Some p" and r: "takeWhile url_char (drop p t) \<noteq> []"
    by blast
  from scheme_length_append [OF p, of u] have s: "scheme_length (t @ u) = Some p" "p \<le> length t"
    by simp_all
  from r obtain c cs where d: "drop p t = c # cs" and c: "url_char c"
    by (cases "drop p t") (auto split: if_splits)
  have "drop p (t @ u) = c # cs @ u" using s(2) d by simp
  with c have "takeWhile url_char (drop p (t @ u)) \<noteq> []" by simp
  with assms(2) s(1) show ?thesis by (intro link_at_plain)
qed

lemma contains_urlI: "i < length s \<Longrightarrow> link_at (drop i s) \<noteq> None \<Longrightarrow> contains_url s"
  by (auto simp: contains_url_def list_ex_iff intro!: bexI [of _ i])

lemma no_url_line:
  assumes "\<not> contains_url s" "CHR ''>'' \<notin> set s" "i < length (trimEnd s)"
  shows "link_at (drop i (trimEnd s)) = None"
proof (rule ccontr)
  assume a: "link_at (drop i (trimEnd s)) \<noteq> None"
  let ?ws = "rev (takeWhile is_space (rev s))"
  have s: "s = trimEnd s @ ?ws" by (rule trimEnd_append_spaces)
  then have d: "drop i s = drop i (trimEnd s) @ ?ws"
    using assms(3) by (metis drop_append diff_is_0_eq' drop_0 less_imp_le_nat)
  have "CHR ''>'' \<notin> set (drop i s)" using assms(2) by (auto dest: in_set_dropD)
  with a d have "link_at (drop i s) \<noteq> None" by (simp add: link_at_append)
  moreover have "i < length s" using assms(3) s by (metis length_append trans_less_add1)
  ultimately show False using assms(1) contains_urlI by blast
qed

lemma fmtInline_plain:
  assumes "\<not> contains_url s" "special_free s"
  shows "fmtInline (trimEnd s) = trimEnd s"
proof -
  have f: "CHR ''*'' \<notin> set (trimEnd s)" "CHR ''>'' \<notin> set s"
    using assms(2) trimEnd_set [of s] by (auto simp: special_free_def)
  have b: "gsub bold_at (trimEnd s) = trimEnd s"
    using f(1) by (intro gsub_untouched [where c = "CHR ''*''"] bold_at_starts)
  have i: "gsub italic_at (trimEnd s) = trimEnd s"
    using f(1) by (intro gsub_untouched [where c = "CHR ''*''"] italic_at_starts)
  have l: "gsub link_at (trimEnd s) = trimEnd s"
    using assms(1) f(2) by (intro gsub_never no_url_line)
  show ?thesis by (simp add: fmtInline_def b i l)
qed

lemma crlf_absent: "LF \<notin> set s \<Longrightarrow> gsub (literally [CR, LF] [LF]) s = s"
proof (rule gsub_never)
  fix i assume "LF \<notin> set s" "i < length s"
  show "literally [CR, LF] [LF] (drop i s) = None"
  proof (rule ccontr)
    assume "literally [CR, LF] [LF] (drop i s) \<noteq> None"
    then have "take 2 (drop i s) = [CR, LF]"
      by (simp add: literally_def numeral_2_eq_2 split: if_splits)
    then have "LF \<in> set (take 2 (drop i s))" by simp
    then have "LF \<in> set s" by (auto dest!: in_set_takeD in_set_dropD)
    with \<open>LF \<notin> set s\<close> show False by simp
  qed
qed

lemma split_on_absent: "c \<notin> set s \<Longrightarrow> split_on c s = [s]"
  by (induction s) auto

lemma toRichHtml_single_line:
  "LF \<notin> set s \<Longrightarrow> toRichHtml s = join [LF] (fst (flushList (rich_line ([], []) s)))"
  by (simp add: toRichHtml_def Let_def crlf_absent split_on_absent)

lemma rich_line_blank:
  "trim s = [] \<Longrightarrow> rich_line ([], []) s = ([], [])"
  by (simp add: rich_line_def Let_def trim_trimEnd flushList_def)

lemma rich_line_paragraph:
  assumes "trim s \<noteq> []" "\<not> marker_then is_space (trimEnd s)" "\<not> contains_url s" "special_free s"
  shows "rich_line ([], []) s = ([''<p>'' @ trimEnd s @ ''</p>''], [])"
proof -
  have e: "esc (trimEnd s) = trimEnd s"
    using assms(4) trimEnd_set [of s] by (intro esc_plain) (auto simp: special_free_def)
  have h: "heading_at 3 (trimEnd s) = None" "heading_at 2 (trimEnd s) = None"
    "heading_at (Suc 0) (trimEnd s) = None" "list_item_at (trimEnd s) = None"
    using assms(2) by (simp_all add: marker_then_def heading_at_None list_item_at_None)
  show ?thesis
    using assms(1)
    by (simp add: rich_line_def Let_def trim_trimEnd h e fmtInline_plain [OF assms(3,4)]
        flushList_def push_part_def)
qed

subsection \<open>The paragraph read back as plain text\<close>

lemma not_space_chars [simp]:
  "\<not> is_space CHR ''p''" "\<not> is_space CHR ''/''" "\<not> is_space CHR ''>''" "\<not> is_space CHR ''<''"
  by (simp_all add: is_space_def)

lemma br_at_p: "br_at (CHR ''<'' # CHR ''p'' # t) = None"
  by (simp add: br_at_def starts_ci_def ascii_lower_def Let_def)

lemma br_at_slash: "br_at (CHR ''<'' # CHR ''/'' # t) = None"
  by (simp add: br_at_def starts_ci_def ascii_lower_def Let_def)

lemma br_at_other: "c \<noteq> CHR ''<'' \<Longrightarrow> br_at (c # t) = None"
  by (simp add: br_at_def)

lemma closing_at_p: "closing_at (CHR ''<'' # CHR ''p'' # t) = None"
  by (simp add: closing_at_def Let_def)

lemma closing_at_other: "c \<noteq> CHR ''<'' \<Longrightarrow> closing_at (c # t) = None"
  by (simp add: closing_at_def)

lemma closing_at_end: "closing_at ''</p>'' = Some ([LF], 4)"
  by code_simp

lemma opening_at_p: "opening_at (CHR ''<'' # CHR ''p'' # CHR ''>'' # t) = Some ([LF], 3)"
  apply (simp add: opening_at_def Let_def block_tag_lengths_def starts_ci_def ascii_lower_def not_gt_def)
  done


lemma pass_br:
  assumes "CHR ''<'' \<notin> set line"
  shows "gsub br_at (''<p>'' @ line @ ''</p>'') = ''<p>'' @ line @ ''</p>''"
proof -
  have "gsub br_at (line @ ''</p>'') = line @ gsub br_at ''</p>''"
    using assms by (intro gsub_skip [where c = "CHR ''<''"] br_at_starts)
  also have "gsub br_at ''</p>'' = ''</p>''"
    by (simp add: br_at_slash br_at_other)
  finally show ?thesis by (simp add: br_at_p br_at_other)
qed

lemma pass_closing:
  assumes "CHR ''<'' \<notin> set line"
  shows "gsub closing_at (''<p>'' @ line @ ''</p>'') = ''<p>'' @ line @ [LF]"
proof -
  have "gsub closing_at (line @ ''</p>'') = line @ gsub closing_at ''</p>''"
    using assms by (intro gsub_skip [where c = "CHR ''<''"] closing_at_starts)
  also have "gsub closing_at ''</p>'' = [LF]"
    using closing_at_end by simp
  finally show ?thesis by (simp add: closing_at_p closing_at_other)
qed

lemma pass_opening:
  assumes "CHR ''<'' \<notin> set line"
  shows "gsub opening_at (''<p>'' @ line @ [LF]) = [LF] @ line @ [LF]"
proof -
  have "gsub opening_at (line @ [LF]) = line @ gsub opening_at [LF]"
    using assms by (intro gsub_skip [where c = "CHR ''<''"] opening_at_starts)
  also have "gsub opening_at [LF] = [LF]"
    by (simp add: opening_at_def LF_def)
  finally show ?thesis using opening_at_p [of "line @ [LF]"] by simp
qed

lemma LF_plain [simp]: "CHR ''<'' \<noteq> LF" "CHR ''&'' \<noteq> LF" "LF \<noteq> CHR ''<''" "LF \<noteq> CHR ''&''"
  by (simp_all add: LF_def)

lemma pass_tags:
  assumes "CHR ''<'' \<notin> set line"
  shows "gsub tag_at ([LF] @ line @ [LF]) = [LF] @ line @ [LF]"
proof (rule gsub_untouched [where c = "CHR ''<''"])
  show "\<And>s. tag_at s \<noteq> None \<Longrightarrow> take 1 s = ''<''" by (rule tag_at_starts)
  show "CHR ''<'' \<notin> set ([LF] @ line @ [LF])" using assms by simp
qed

lemma pass_entities:
  assumes "CHR ''&'' \<notin> set line"
  shows "decode_entities ([LF] @ line @ [LF]) = [LF] @ line @ [LF]"
proof -
  have "CHR ''&'' \<notin> set ([LF] @ line @ [LF])" using assms by simp
  then show ?thesis by (rule decode_entities_plain)
qed

lemma split_on_sep: "c \<notin> set xs \<Longrightarrow> split_on c (xs @ c # ys) = xs # split_on c ys"
  by (induction xs) auto

lemma trimEnd_Nil [simp]: "trimEnd [] = []"
  by (simp add: trimEnd_def)

lemma pass_lines:
  assumes "LF \<notin> set line" "line \<noteq> []" "\<not> is_space (last line)"
  shows "join [LF] (map trimEnd (split_on LF ([LF] @ line @ [LF]))) = [LF] @ line @ [LF]"
proof -
  have "split_on LF ([LF] @ line @ [LF]) = [[], line, []]"
    using assms(1) split_on_sep [of LF line "[]"] by simp
  then show ?thesis by (simp add: trimEnd_fixed [OF assms(2,3)])
qed

lemma pass_blank_lines:
  assumes "LF \<notin> set line" "line \<noteq> []"
  shows "gsub blank_lines_at ([LF] @ line @ [LF]) = [LF] @ line @ [LF]"
proof -
  obtain c cs where l: "line = c # cs" "c \<noteq> LF" using assms by (cases line) auto
  have h: "blank_lines_at (LF # line @ [LF]) = None"
    by (simp add: blank_lines_at_def Let_def l)
  have "gsub blank_lines_at (line @ [LF]) = line @ gsub blank_lines_at [LF]"
    using assms(1) by (intro gsub_skip [where c = LF] blank_lines_at_starts)
  also have "gsub blank_lines_at [LF] = [LF]"
    by (simp add: blank_lines_at_def)
  finally show ?thesis using h by simp
qed

lemma trim_wrapped:
  assumes "line \<noteq> []" "\<not> is_space (last line)"
  shows "trim ([LF] @ line @ [LF]) = trimStart line"
proof -
  have "dropWhile is_space (rev ([LF] @ line @ [LF])) = rev line @ [LF]"
    using assms by (cases "rev line") (auto simp: is_space_LF last_rev)
  then have "trimEnd ([LF] @ line @ [LF]) = [LF] @ line"
    by (simp add: trimEnd_def del: rev_append)
  then show ?thesis by (simp add: trim_def trimStart_def is_space_LF)
qed

lemma htmlToPlainText_paragraph:
  assumes "CHR ''<'' \<notin> set line" "CHR ''&'' \<notin> set line" "LF \<notin> set line"
    "line \<noteq> []" "\<not> is_space (last line)"
  shows "htmlToPlainText (''<p>'' @ line @ ''</p>'') = trimStart line"
proof -
  have "htmlToPlainText (''<p>'' @ line @ ''</p>'')
      = trim (gsub blank_lines_at (join [LF] (map trimEnd (split_on LF
          (decode_entities (gsub tag_at (gsub opening_at (gsub closing_at (gsub br_at
             (''<p>'' @ line @ ''</p>''))))))))))"
    by (simp add: htmlToPlainText_def Let_def)
  also have "\<dots> = trim ([LF] @ line @ [LF])"
    by (simp only: pass_br [OF assms(1)] pass_closing [OF assms(1)] pass_opening [OF assms(1)]
        pass_tags [OF assms(1)] pass_entities [OF assms(2)] pass_lines [OF assms(3,4,5)]
        pass_blank_lines [OF assms(3,4)])
  also have "\<dots> = trimStart line" by (rule trim_wrapped [OF assms(4,5)])
  finally show ?thesis .
qed


lemma htmlToPlainText_Nil: "htmlToPlainText [] = []"
  by (simp add: htmlToPlainText_def)

lemma special_free_plain:
  "special_free s \<Longrightarrow> CHR ''<'' \<notin> set s \<and> CHR ''&'' \<notin> set s"
  by (auto simp: special_free_def)

subsection \<open>Claim C10: plain text survives the two conversions\<close>

text \<open>
  Claim C10, as stated, fails: the heading expressions ask for white space
  (\<^verbatim>\<open>\s+\<close>) after the marker, not for a space.  The line \<^verbatim>\<open>#\<close>, TAB, \<^verbatim>\<open>x\<close> has none
  of the excluded characters, no URL and no marker followed by a space, yet it is
  taken for a heading and comes back as \<^verbatim>\<open>x\<close>.
\<close>

theorem C10_counterexample_tab_marker:
  "LF \<notin> set tab_heading
   \<and> special_free tab_heading
   \<and> \<not> contains_url tab_heading
   \<and> \<not> marker_then space_char (trimEnd tab_heading)
   \<and> trim tab_heading = tab_heading
   \<and> toRichHtml tab_heading = ''<h1>x</h1>''
   \<and> htmlToPlainText (toRichHtml tab_heading) = ''x''
   \<and> htmlToPlainText (toRichHtml tab_heading) \<noteq> trim tab_heading"
  by code_simp

text \<open>
  Claim C10, amended.  For every single-line string \<^verbatim>\<open>s\<close> (no line feed) without
  \<^verbatim>\<open>&\<close>, \<^verbatim>\<open><\<close>, \<^verbatim>\<open>>\<close> and \<^verbatim>\<open>*\<close>, without a URL, and which, once its trailing
  white space is removed, does not begin with a heading marker (\<^verbatim>\<open>#\<close>, \<^verbatim>\<open>##\<close>,
  \<^verbatim>\<open>###\<close>) or a list marker (\<^verbatim>\<open>-\<close>, \<^verbatim>\<open>*\<close>) followed by a white-space character:
  \<^verbatim>\<open>htmlToPlainText (toRichHtml s)\<close> is \<^verbatim>\<open>s\<close> with its leading and trailing white space
  removed.
\<close>

theorem C10_plain_text_roundtrip:
  assumes "LF \<notin> set s" "special_free s" "\<not> contains_url s"
    "\<not> marker_then is_space (trimEnd s)"
  shows "htmlToPlainText (toRichHtml s) = trim s"
proof (cases "trim s = []")
  case True
  then have "rich_line ([], []) s = ([], [])" by (rule rich_line_blank)
  then have "toRichHtml s = []"
    by (simp add: toRichHtml_single_line [OF assms(1)] flushList_def)
  then show ?thesis using True by (simp add: htmlToPlainText_Nil)
next
  case False
  let ?line = "trimEnd s"
  have ne: "?line \<noteq> []" using False by (simp add: trim_Nil_iff)
  have "rich_line ([], []) s = ([''<p>'' @ ?line @ ''</p>''], [])"
    using False assms(4,3,2) by (rule rich_line_paragraph)
  then have "toRichHtml s = ''<p>'' @ ?line @ ''</p>''"
    by (simp add: toRichHtml_single_line [OF assms(1)] flushList_def)
  moreover have "htmlToPlainText (''<p>'' @ ?line @ ''</p>'') = trimStart ?line"
    using special_free_plain [OF assms(2)] assms(1) trimEnd_set [of s] ne
      trimEnd_last [OF ne]
    by (intro htmlToPlainText_paragraph) auto
  ultimately show ?thesis by (simp add: trim_def)
qed

theorem C10_plain_text_roundtrip_witness:
  "LF \<notin> set padded_title
   \<and> special_free padded_title
   \<and> \<not> contains_url padded_title
   \<and> \<not> marker_then is_space (trimEnd padded_title)
   \<and> htmlToPlainText (toRichHtml padded_title) = ''Safer streets for bikes''"
proof -
  have h: "LF \<notin> set padded_title" "special_free padded_title" "\<not> contains_url padded_title"
    "\<not> marker_then is_space (trimEnd padded_title)"
    by code_simp+
  have t: "trim padded_title = ''Safer streets for bikes''" by code_simp
  from C10_plain_text_roundtrip [OF h] t h show ?thesis by simp
qed


section \<open>Placeholder links: proofs\<close>










section \<open>The executors: proofs\<close>

lemmas example_defs = example_env_def search_args_def no_args_def empty_world_def unavailable_def
  helpful_backend_def found_post_def create_args_def edit_args_def incomplete_args_def

lemmas handler_example_defs = user_request_def asking_def search_call_def broken_call_def
  overloaded_reply_def says_def scripted_def example_parse_def search_text_def broken_text_def
  example_stringify_result_def example_stringify_error_def plain_answer_def DQ_def

lemmas find_defs = find_content_def find_content_fetch_def fetch_def Date_now_def Let_def
  or_else_def truthy_def toLowerCase_def lower_char_def token_header_def response_ok_def
  isFindContentArgs_def TOOL_CACHE_TTL_MS_def

subsection \<open>Confirmation gating\<close>

lemma create_preview:
  "isCreateContentArgs args \<Longrightarrow> a_confirm args \<noteq> Some True \<Longrightarrow>
   create_content env tok args w =
     (Inr (CreateRequiresConfirmation
        \<lparr>cp_title = the (a_title args), cp_content_type = the (a_content_type args),
         cp_description = the (a_description args),
         cp_html = toRichHtml (the (a_description args)),
         cp_plain_text = htmlToPlainText (toRichHtml (the (a_description args))),
         cp_parent_id = a_parent_id args\<rparr>), w)"
  by (simp add: create_content_def Let_def)



lemma edit_preview:
  "isEditContentArgs args \<Longrightarrow> a_confirm args \<noteq> Some True \<Longrightarrow>
   \<exists>p. edit_content env tok args w = (Inr (EditRequiresConfirmation p), w)
     \<and> ep_content_id p = the (a_content_id args)
     \<and> ep_title p = ch_title (the (a_changes args))
     \<and> ep_description p = ch_description (the (a_changes args))
     \<and> ep_html p = (if truthy (ch_description (the (a_changes args)))
                     then Some (toRichHtml (the (ch_description (the (a_changes args))))) else None)
     \<and> ep_plain_text p = (if truthy (ep_html p) then Some (htmlToPlainText (the (ep_html p))) else None)"
  by (simp add: edit_content_def Let_def)






subsection \<open>The tool-result cache\<close>









section \<open>The handler: proofs\<close>

subsection \<open>Errors surfaced to the caller\<close>

lemma POST_unauthenticated:
  "\<not> truthy (rq_userToken req) \<Longrightarrow>
   POST env req w = (\<lparr>rs_status = 401, rs_error = Some ''Unauthenticated: missing user token'',
                      rs_conversationId = None, rs_message = None\<rparr>, w)"
  by (simp add: POST_def)

lemma POST_authenticated:
  "truthy (rq_userToken req) \<Longrightarrow>
   POST env req w =
     (case POST_try env req (conversation_of env req) (context_messages env req w) w of
        (Inl e, w1) \<Rightarrow> (error_response e, w1)
      | (Inr r, w1) \<Rightarrow> (r, w1))"
  by (simp add: POST_def)

lemma POST_try_no_key:
  "\<not> truthy (e_OPENROUTER_API_KEY env) \<Longrightarrow>
   POST_try env req c ms w = (Inl (Error ''OpenRouter API key is not configured''), w)"
  by (simp add: POST_try_def)

lemma POST_try_first_call_thrown:
  "truthy (e_OPENROUTER_API_KEY env) \<Longrightarrow>
   axios_post env \<lparr>lr_messages = ms, lr_tool_choice = Auto\<rparr> w = (Inl e, w1) \<Longrightarrow>
   POST_try env req c ms w = (Inl e, w1)"
  by (simp add: POST_try_def)

lemma axios_post_rejected:
  "e_llm env (length (w_llm_log w)) request = HttpReply status body \<Longrightarrow>
   \<not> (200 \<le> status \<and> status < 300) \<Longrightarrow>
   axios_post env request w
     = (Inl (AxiosError (status_message status) (Some (status, body))),
        w\<lparr>w_llm_log := w_llm_log w @ [request]\<rparr>)"
  by (simp add: axios_post_def Let_def)

lemma axios_post_no_response:
  "e_llm env (length (w_llm_log w)) request = NoResponse msg \<Longrightarrow>
   axios_post env request w = (Inl (AxiosError msg None), w\<lparr>w_llm_log := w_llm_log w @ [request]\<rparr>)"
  by (simp add: axios_post_def Let_def)


lemma error_response_upstream:
  "error_response (AxiosError (status_message status) (Some (status, body)))
   = \<lparr>rs_status = (if status = 0 then 500 else status),
      rs_error = Some (upstream_message status body),
      rs_conversationId = None, rs_message = None\<rparr>"
  by (simp add: error_response_def upstream_message_def getErrorMessage_def Let_def
      split: option.splits error_field.splits)

lemma error_response_plain:
  "error_response (Error msg)
   = \<lparr>rs_status = 500, rs_error = Some msg, rs_conversationId = None, rs_message = None\<rparr>"
  "error_response (AxiosError msg None)
   = \<lparr>rs_status = 500, rs_error = Some msg, rs_conversationId = None, rs_message = None\<rparr>"
  by (simp_all add: error_response_def getErrorMessage_def)

lemma POST_first_call_rejected:
  assumes "truthy (rq_userToken req)" "truthy (e_OPENROUTER_API_KEY env)"
    "e_llm env (length (w_llm_log w)) (first_request env req w) = HttpReply status body"
    "\<not> (200 \<le> status \<and> status < 300)"
  shows "POST env req w
     = (\<lparr>rs_status = (if status = 0 then 500 else status),
          rs_error = Some (upstream_message status body),
          rs_conversationId = None, rs_message = None\<rparr>,
        w\<lparr>w_llm_log := w_llm_log w @ [first_request env req w]\<rparr>)"
proof -
  have "axios_post env (first_request env req w) w
     = (Inl (AxiosError (status_message status) (Some (status, body))),
        w\<lparr>w_llm_log := w_llm_log w @ [first_request env req w]\<rparr>)"
    using assms(3,4) by (rule axios_post_rejected)
  then have "POST_try env req (conversation_of env req) (context_messages env req w) w
     = (Inl (AxiosError (status_message status) (Some (status, body))),
        w\<lparr>w_llm_log := w_llm_log w @ [first_request env req w]\<rparr>)"
    unfolding first_request_def by (rule POST_try_first_call_thrown [OF assms(2)])
  then show ?thesis
    by (simp only: POST_authenticated [OF assms(1)] error_response_upstream prod.case sum.case)
qed

lemma POST_first_call_no_response:
  assumes "truthy (rq_userToken req)" "truthy (e_OPENROUTER_API_KEY env)"
    "e_llm env (length (w_llm_log w)) (first_request env req w) = NoResponse msg"
  shows "POST env req w
     = (\<lparr>rs_status = 500, rs_error = Some msg, rs_conversationId = None, rs_message = None\<rparr>,
        w\<lparr>w_llm_log := w_llm_log w @ [first_request env req w]\<rparr>)"
proof -
  have "axios_post env (first_request env req w) w
     = (Inl (AxiosError msg None), w\<lparr>w_llm_log := w_llm_log w @ [first_request env req w]\<rparr>)"
    using assms(3) by (rule axios_post_no_response)
  then have "POST_try env req (conversation_of env req) (context_messages env req w) w
     = (Inl (AxiosError msg None), w\<lparr>w_llm_log := w_llm_log w @ [first_request env req w]\<rparr>)"
    unfolding first_request_def by (rule POST_try_first_call_thrown [OF assms(2)])
  then show ?thesis
    by (simp only: POST_authenticated [OF assms(1)] error_response_plain prod.case sum.case)
qed

text \<open>
  Claim C8.  A request without a user token is answered with 401 and the model is not
  called.  A request with a token while the API key is not configured is answered with
  500 and the model is not called (the token check comes first, so without a token the
  answer is the 401 above).  With both present, when the first model call fails the
  answer is not a 200: it carries the upstream status (500 if there is none) and the
  upstream error message (the HTTP client's message if the body has none), and no
  assistant message.
\<close>

theorem C8_fatal_errors:
  "(\<not> truthy (rq_userToken req) \<longrightarrow>
      rs_status (fst (POST env req w)) = 401
      \<and> rs_error (fst (POST env req w)) = Some ''Unauthenticated: missing user token''
      \<and> w_llm_log (snd (POST env req w)) = w_llm_log w)
   \<and> (truthy (rq_userToken req) \<and> \<not> truthy (e_OPENROUTER_API_KEY env) \<longrightarrow>
      rs_status (fst (POST env req w)) = 500
      \<and> rs_error (fst (POST env req w)) = Some ''OpenRouter API key is not configured''
      \<and> w_llm_log (snd (POST env req w)) = w_llm_log w)
   \<and> (truthy (rq_userToken req) \<and> truthy (e_OPENROUTER_API_KEY env)
        \<and> e_llm env (length (w_llm_log w)) (first_request env req w) = HttpReply status body
        \<and> \<not> (200 \<le> status \<and> status < 300) \<longrightarrow>
      rs_status (fst (POST env req w)) \<noteq> 200
      \<and> rs_status (fst (POST env req w)) = (if status = 0 then 500 else status)
      \<and> rs_error (fst (POST env req w)) = Some (upstream_message status body)
      \<and> rs_message (fst (POST env req w)) = None
      \<and> w_llm_log (snd (POST env req w)) = w_llm_log w @ [first_request env req w])
   \<and> (truthy (rq_userToken req) \<and> truthy (e_OPENROUTER_API_KEY env)
        \<and> e_llm env (length (w_llm_log w)) (first_request env req w) = NoResponse msg \<longrightarrow>
      rs_status (fst (POST env req w)) = 500
      \<and> rs_error (fst (POST env req w)) = Some msg
      \<and> rs_message (fst (POST env req w)) = None)"
proof (intro conjI impI)
  assume "\<not> truthy (rq_userToken req)"
  note u = POST_unauthenticated [OF this, of env w]
  show "rs_status (fst (POST env req w)) = 401"
    "rs_error (fst (POST env req w)) = Some ''Unauthenticated: missing user token''"
    "w_llm_log (snd (POST env req w)) = w_llm_log w"
    by (simp_all add: u)
next
  assume a: "truthy (rq_userToken req) \<and> \<not> truthy (e_OPENROUTER_API_KEY env)"
  then have k: "POST env req w = (error_response (Error ''OpenRouter API key is not configured''), w)"
    by (simp add: POST_authenticated POST_try_no_key)
  show "rs_status (fst (POST env req w)) = 500"
    "rs_error (fst (POST env req w)) = Some ''OpenRouter API key is not configured''"
    "w_llm_log (snd (POST env req w)) = w_llm_log w"
    by (simp_all add: k error_response_plain)
next
  assume a: "truthy (rq_userToken req) \<and> truthy (e_OPENROUTER_API_KEY env)
        \<and> e_llm env (length (w_llm_log w)) (first_request env req w) = HttpReply status body
        \<and> \<not> (200 \<le> status \<and> status < 300)"
  then have r: "POST env req w
     = (\<lparr>rs_status = (if status = 0 then 500 else status),
          rs_error = Some (upstream_message status body),
          rs_conversationId = None, rs_message = None\<rparr>,
        w\<lparr>w_llm_log := w_llm_log w @ [first_request env req w]\<rparr>)"
    using POST_first_call_rejected [of req env w status body] by blast
  show "rs_status (fst (POST env req w)) \<noteq> 200"
    "rs_status (fst (POST env req w)) = (if status = 0 then 500 else status)"
    "rs_error (fst (POST env req w)) = Some (upstream_message status body)"
    "rs_message (fst (POST env req w)) = None"
    "w_llm_log (snd (POST env req w)) = w_llm_log w @ [first_request env req w]"
    using a by (auto simp: r)
next
  assume a: "truthy (rq_userToken req) \<and> truthy (e_OPENROUTER_API_KEY env)
        \<and> e_llm env (length (w_llm_log w)) (first_request env req w) = NoResponse msg"
  then have r: "POST env req w
     = (\<lparr>rs_status = 500, rs_error = Some msg, rs_conversationId = None, rs_message = None\<rparr>,
        w\<lparr>w_llm_log := w_llm_log w @ [first_request env req w]\<rparr>)"
    using POST_first_call_no_response [of req env w msg] by blast
  show "rs_status (fst (POST env req w)) = 500"
    "rs_error (fst (POST env req w)) = Some msg"
    "rs_message (fst (POST env req w)) = None"
    by (simp_all add: r)
qed

theorem C8_fatal_errors_witness:
  "\<not> truthy (rq_userToken (user_request\<lparr>rq_userToken := None\<rparr>))
   \<and> rs_status (fst (POST example_env (user_request\<lparr>rq_userToken := None\<rparr>) empty_world)) = 401
   \<and> w_llm_log (snd (POST example_env (user_request\<lparr>rq_userToken := None\<rparr>) empty_world)) = []
   \<and> truthy (rq_userToken user_request)
   \<and> \<not> truthy (e_OPENROUTER_API_KEY (example_env\<lparr>e_OPENROUTER_API_KEY := None\<rparr>))
   \<and> rs_status (fst (POST (example_env\<lparr>e_OPENROUTER_API_KEY := None\<rparr>) user_request empty_world)) = 500
   \<and> w_llm_log (snd (POST (example_env\<lparr>e_OPENROUTER_API_KEY := None\<rparr>) user_request empty_world)) = []
   \<and> truthy (e_OPENROUTER_API_KEY (example_env\<lparr>e_llm := scripted []\<rparr>))
   \<and> rs_status (fst (POST (example_env\<lparr>e_llm := scripted []\<rparr>) user_request empty_world)) = 503
   \<and> rs_error (fst (POST (example_env\<lparr>e_llm := scripted []\<rparr>) user_request empty_world))
       = Some ''Service overloaded''
   \<and> rs_status (fst (POST (example_env\<lparr>e_llm := (\<lambda>n request. NoResponse ''timeout of 60000ms exceeded'')\<rparr>)
         user_request empty_world)) = 500"
proof -
  let ?anonymous = "user_request\<lparr>rq_userToken := None\<rparr>"
  let ?unconfigured = "example_env\<lparr>e_OPENROUTER_API_KEY := None\<rparr>"
  let ?down = "example_env\<lparr>e_llm := scripted []\<rparr>"
  let ?silent = "example_env\<lparr>e_llm := (\<lambda>n request. NoResponse ''timeout of 60000ms exceeded'')\<rparr>"
  let ?body = "\<lparr>ld_message = None, ld_error = Some (ErrorString ''Service overloaded'')\<rparr>"
  have t: "\<not> truthy (rq_userToken ?anonymous)" "truthy (rq_userToken user_request)"
    "\<not> truthy (e_OPENROUTER_API_KEY ?unconfigured)"
    "truthy (e_OPENROUTER_API_KEY ?down)" "truthy (e_OPENROUTER_API_KEY ?silent)"
    by (simp_all add: truthy_def user_request_def example_env_def)
  have l: "w_llm_log empty_world = []" by (simp add: empty_world_def)
  have d: "e_llm ?down (length (w_llm_log empty_world)) (first_request ?down user_request empty_world)
      = HttpReply 503 ?body"
    by (simp add: scripted_def overloaded_reply_def)
  have s: "e_llm ?silent (length (w_llm_log empty_world)) (first_request ?silent user_request empty_world)
      = NoResponse ''timeout of 60000ms exceeded''"
    by simp
  have m: "upstream_message 503 ?body = ''Service overloaded''"
    by (simp add: upstream_message_def)
  note a = C8_fatal_errors [of ?anonymous example_env empty_world]
  note b = C8_fatal_errors [of user_request ?unconfigured empty_world]
  note c = C8_fatal_errors [of user_request ?down empty_world 503 ?body]
  note e = C8_fatal_errors [of user_request ?silent empty_world _ _ "''timeout of 60000ms exceeded''"]
  have 1: "rs_status (fst (POST example_env ?anonymous empty_world)) = 401"
    "w_llm_log (snd (POST example_env ?anonymous empty_world)) = []"
    using a t l by simp_all
  have 2: "rs_status (fst (POST ?unconfigured user_request empty_world)) = 500"
    "w_llm_log (snd (POST ?unconfigured user_request empty_world)) = []"
    using b t l by simp_all
  have 3: "rs_status (fst (POST ?down user_request empty_world)) = 503"
    "rs_error (fst (POST ?down user_request empty_world)) = Some ''Service overloaded''"
    using c t d m by simp_all
  have 4: "rs_status (fst (POST ?silent user_request empty_world)) = 500"
    using e t s by blast
  show ?thesis using t 1 2 3 4 by blast
qed

subsection \<open>One tool call\<close>

lemma same_handler_state_refl [simp]: "same_handler_state w w"
  by (simp add: same_handler_state_def)

lemma same_handler_state_trans:
  "same_handler_state w w1 \<Longrightarrow> same_handler_state w1 w2 \<Longrightarrow> same_handler_state w w2"
  by (simp add: same_handler_state_def)

lemma find_content_frame: "same_handler_state w (snd (find_content env tok args w))"
  by (auto simp: same_handler_state_def find_content_def find_content_fetch_def fetch_def Date_now_def
      Let_def split: option.splits backend_reply.splits prod.splits)

lemma create_content_frame: "same_handler_state w (snd (create_content env tok args w))"
  by (auto simp: same_handler_state_def create_content_def fetch_def Let_def
      split: backend_reply.splits prod.splits)

lemma edit_content_frame: "same_handler_state w (snd (edit_content env tok args w))"
  by (auto simp: same_handler_state_def edit_content_def fetch_def Let_def
      split: backend_reply.splits prod.splits)

lemma funcs_frame:
  "funcs name = Some f \<Longrightarrow> same_handler_state w (snd (f env tok args w))"
  by (auto simp: funcs_def find_content_frame create_content_frame edit_content_frame
      split: if_splits)

lemma run_tool_call_parse_error:
  "e_JSON_parse env (argument_text toolCall) = Inl msg \<Longrightarrow>
   run_tool_call env tok toolCall st w = (Inl (Error msg), w)"
  by (cases st) (simp add: run_tool_call_def Let_def)

lemma run_tool_call_memo_hit:
  "e_JSON_parse env (argument_text toolCall) = Inr (args, stableArgs) \<Longrightarrow>
   roundMemo (tc_name toolCall @ ''|'' @ stableArgs) = Some (cached_name, cached_content) \<Longrightarrow>
   run_tool_call env tok toolCall (toolResults, roundMemo, executed) w
     = (Inr (toolResults @ [tool_message (tc_id toolCall) cached_name cached_content],
             roundMemo, executed), w)"
  by (simp add: run_tool_call_def Let_def)

lemma run_tool_call_unsupported:
  "e_JSON_parse env (argument_text toolCall) = Inr (args, stableArgs) \<Longrightarrow>
   roundMemo (tc_name toolCall @ ''|'' @ stableArgs) = None \<Longrightarrow>
   funcs (tc_name toolCall) = None \<Longrightarrow>
   run_tool_call env tok toolCall (toolResults, roundMemo, executed) w
     = (Inr (toolResults @ [tool_message (tc_id toolCall) (tc_name toolCall)
                              (e_stringify_error env (''Unsupported tool: '' @ tc_name toolCall))],
             roundMemo, executed), w)"
  by (simp add: run_tool_call_def Let_def)

lemma run_tool_call_thrown:
  "e_JSON_parse env (argument_text toolCall) = Inr (args, stableArgs) \<Longrightarrow>
   roundMemo (tc_name toolCall @ ''|'' @ stableArgs) = None \<Longrightarrow>
   funcs (tc_name toolCall) = Some toolFunction \<Longrightarrow>
   toolFunction env tok args (w\<lparr>w_invocations := w_invocations w @ [(tc_name toolCall, args)]\<rparr>)
     = (Inl msg, w1) \<Longrightarrow>
   run_tool_call env tok toolCall (toolResults, roundMemo, executed) w
     = (Inr (toolResults @ [tool_message (tc_id toolCall) (tc_name toolCall) (e_stringify_error env msg)],
             roundMemo, executed), w1)"
  by (simp add: run_tool_call_def Let_def)

lemma run_tool_call_returned:
  "e_JSON_parse env (argument_text toolCall) = Inr (args, stableArgs) \<Longrightarrow>
   roundMemo (tc_name toolCall @ ''|'' @ stableArgs) = None \<Longrightarrow>
   funcs (tc_name toolCall) = Some toolFunction \<Longrightarrow>
   toolFunction env tok args (w\<lparr>w_invocations := w_invocations w @ [(tc_name toolCall, args)]\<rparr>)
     = (Inr result, w1) \<Longrightarrow>
   run_tool_call env tok toolCall (toolResults, roundMemo, executed) w
     = (Inr (toolResults @ [tool_message (tc_id toolCall) (tc_name toolCall) (e_stringify_result env result)],
             roundMemo(tc_name toolCall @ ''|'' @ stableArgs \<mapsto> (tc_name toolCall, e_stringify_result env result)),
             executed @ [(tc_name toolCall, result)]), w1)"
  by (simp add: run_tool_call_def Let_def)

text \<open>One call whose arguments parse: summary\<close>

lemma run_tool_call_parsed:
  assumes "e_JSON_parse env (argument_text toolCall) = Inr (args, stableArgs)"
  shows "\<exists>message memo' executed' w'.
     run_tool_call env tok toolCall (toolResults, roundMemo, executed) w
       = (Inr (toolResults @ [message], memo', executed'), w')
     \<and> m_role message = Tool \<and> m_tool_call_id message = Some (tc_id toolCall)
     \<and> w_llm_log w' = w_llm_log w \<and> w_store w' = w_store w
     \<and> (\<forall>k v. roundMemo k = Some v \<longrightarrow> memo' k = Some v)"
proof (cases "roundMemo (tc_name toolCall @ ''|'' @ stableArgs)")
  case (Some c)
  obtain cn cc where c: "c = (cn, cc)" by (cases c)
  show ?thesis
    using assms Some c by (simp add: run_tool_call_memo_hit tool_message_def)
next
  case None
  show ?thesis
  proof (cases "funcs (tc_name toolCall)")
    case n: None
    show ?thesis
      using assms None n by (simp add: run_tool_call_unsupported tool_message_def)
  next
    case (Some f)
    let ?w = "w\<lparr>w_invocations := w_invocations w @ [(tc_name toolCall, args)]\<rparr>"
    obtain r w1 where f: "f env tok args ?w = (r, w1)" by (cases "f env tok args ?w")
    have fr: "same_handler_state ?w w1"
      using funcs_frame [OF Some, of ?w env tok args] f by simp
    show ?thesis
    proof (cases r)
      case (Inl msg)
      have "run_tool_call env tok toolCall (toolResults, roundMemo, executed) w
        = (Inr (toolResults @ [tool_message (tc_id toolCall) (tc_name toolCall) (e_stringify_error env msg)],
             roundMemo, executed), w1)"
        using assms None Some f Inl by (simp add: run_tool_call_thrown)
      with fr show ?thesis
        by (simp add: tool_message_def same_handler_state_def)
    next
      case (Inr result)
      have "run_tool_call env tok toolCall (toolResults, roundMemo, executed) w
        = (Inr (toolResults @ [tool_message (tc_id toolCall) (tc_name toolCall) (e_stringify_result env result)],
             roundMemo(tc_name toolCall @ ''|'' @ stableArgs \<mapsto> (tc_name toolCall, e_stringify_result env result)),
             executed @ [(tc_name toolCall, result)]), w1)"
        using assms None Some f Inr by (simp add: run_tool_call_returned)
      with fr None show ?thesis
        by (auto simp: tool_message_def same_handler_state_def)
    qed
  qed
qed

subsection \<open>The tool calls of a round\<close>



lemma run_tool_calls_append:
  "run_tool_calls env tok (xs @ ys) st w =
     (case run_tool_calls env tok xs st w of
        (Inl e, w1) \<Rightarrow> (Inl e, w1)
      | (Inr st1, w1) \<Rightarrow> run_tool_calls env tok ys st1 w1)"
  by (induction xs arbitrary: st w) (auto split: prod.splits sum.splits)


subsection \<open>The rounds\<close>




declare tool_loop.simps [simp del]












subsection \<open>The answer\<close>












subsection \<open>Bounded rounds and the final answer\<close>



lemma error_response_message [simp]: "rs_message (error_response e) = None"
  by (simp add: error_response_def Let_def)






subsection \<open>Errors after the first model call\<close>


lemma error_response_status:
  "rs_status (error_response (AxiosError (status_message status) (Some (status, body))))
     = (if status = 0 then 500 else status)"
  by (simp add: error_response_upstream)




lemma failed_search_thrown:
  "find_content example_env (Some ''user-token'') search_args
     (empty_world\<lparr>w_invocations := w_invocations empty_world @ [(''find_content'', search_args)]\<rparr>)
   = (Inl ''API request failed: 503 - Service Unavailable'',
      empty_world\<lparr>w_invocations := [(''find_content'', search_args)], w_clock_reads := 1,
        w_backend_log := [GetPosts (Some ''user-token'') ''all'' ''bike lanes'']\<rparr>)"
proof -
  have d: "decimal 503 = ''503''" by code_simp
  show ?thesis
    by (simp add: find_defs example_defs request_failed_def d del: decimal.simps)
qed


subsection \<open>Arguments that are not JSON\<close>

text \<open>
  Claim C4 at a concrete input.  The first answer of the model asks for two tool calls;
  the arguments of the first are not JSON.  \<^verbatim>\<open>JSON.parse\<close> throws before the
  \<^verbatim>\<open>try\<close> block of the loop body, so no error tool-result is made: the second call
  is never run, no follow-up request is sent, and the handler answers with status 500.
\<close>

theorem C4_parse_error_aborts_request:
  "e_JSON_parse broken_env (argument_text (broken_call ''call_1'')) = Inl ''Unexpected end of JSON input''
   \<and> fst (POST broken_env user_request empty_world)
       = \<lparr>rs_status = 500, rs_error = Some ''Unexpected end of JSON input'',
          rs_conversationId = None, rs_message = None\<rparr>
   \<and> w_invocations (snd (POST broken_env user_request empty_world)) = []
   \<and> length (w_llm_log (snd (POST broken_env user_request empty_world))) = 1"
  apply (simp add: POST_def truthy_def user_request_def broken_env_def)
  apply (simp add: POST_try_def truthy_def example_env_def axios_post_def Let_def scripted_def says_def empty_world_def)
  apply (simp add: tool_loop.simps has_tool_calls_def asking_def tool_round_def tool_calls_of_def)
  apply (simp add: run_tool_call_def argument_text_def broken_call_def broken_text_def example_parse_def search_text_def DQ_def Let_def)
  apply (simp add: error_response_def getErrorMessage_def)
  done

subsection \<open>The context sent to the model\<close>









subsection \<open>The round memo\<close>

lemma run_tool_call_memo_grows:
  assumes "run_tool_call env tok toolCall (toolResults, roundMemo, executed) w = (Inr (trs, memo, ex), w')"
    "roundMemo k = Some v"
  shows "memo k = Some v"
proof (cases "e_JSON_parse env (argument_text toolCall)")
  case (Inl msg)
  with assms(1) show ?thesis by (simp add: run_tool_call_parse_error)
next
  case (Inr p)
  obtain args stableArgs where "p = (args, stableArgs)" by (cases p)
  with Inr have "e_JSON_parse env (argument_text toolCall) = Inr (args, stableArgs)" by simp
  from run_tool_call_parsed [OF this, of tok toolResults roundMemo executed w]
  obtain message memo' executed' w'' where
    1: "run_tool_call env tok toolCall (toolResults, roundMemo, executed) w
       = (Inr (toolResults @ [message], memo', executed'), w'')"
    and 2: "\<forall>k v. roundMemo k = Some v \<longrightarrow> memo' k = Some v"
    by blast
  from 1 assms(1) have "memo' = memo" by simp
  with 2 assms(2) show ?thesis by blast
qed

lemma run_tool_calls_memo_grows:
  assumes "run_tool_calls env tok calls (toolResults, roundMemo, executed) w = (Inr (trs, memo, ex), w')"
    "roundMemo k = Some v"
  shows "memo k = Some v"
  using assms
proof (induction calls arbitrary: toolResults roundMemo executed w)
  case Nil
  then show ?case by simp
next
  case (Cons c calls)
  obtain r w1 where r: "run_tool_call env tok c (toolResults, roundMemo, executed) w = (r, w1)"
    by (cases "run_tool_call env tok c (toolResults, roundMemo, executed) w")
  show ?case
  proof (cases r)
    case (Inl e)
    with r Cons.prems(1) show ?thesis by simp
  next
    case (Inr st1)
    obtain t1 m1 e1 where st1: "st1 = (t1, m1, e1)" by (cases st1)
    from run_tool_call_memo_grows [of env tok c toolResults roundMemo executed w t1 m1 e1 w1 k v]
      r Inr st1 Cons.prems(2)
    have "m1 k = Some v" by simp
    moreover have "run_tool_calls env tok calls (t1, m1, e1) w1 = (Inr (trs, memo, ex), w')"
      using Cons.prems(1) r Inr st1 by simp
    ultimately show ?thesis by (rule Cons.IH [rotated])
  qed
qed

lemma same_call_argument_text: "same_call a b \<Longrightarrow> argument_text a = argument_text b"
  by (simp add: same_call_def argument_text_def)


lemma run_tool_calls_Cons_Inr:
  "run_tool_call env tok c st w = (Inr st1, w1) \<Longrightarrow>
   run_tool_calls env tok (c # cs) st w = run_tool_calls env tok cs st1 w1"
  by simp

lemma run_tool_calls_snoc:
  "run_tool_calls env tok cs st w = (Inr st1, w1) \<Longrightarrow>
   run_tool_calls env tok (cs @ [c]) st w = run_tool_call env tok c st1 w1"
  by (simp add: run_tool_calls_append split: prod.splits sum.splits)

lemma memo_then_hit:
  assumes same: "same_call first later"
    and parsed: "e_JSON_parse env (argument_text first) = Inr (args, stableArgs)"
    and unseen: "roundMemo (tc_name first @ ''|'' @ stableArgs) = None"
    and known: "funcs (tc_name first) = Some toolFunction"
    and returned: "toolFunction env tok args (w\<lparr>w_invocations := w_invocations w @ [(tc_name first, args)]\<rparr>)
            = (Inr result, w1)"
    and between: "run_tool_calls env tok between
               (toolResults @ [tool_message (tc_id first) (tc_name first) (e_stringify_result env result)],
                roundMemo(tc_name first @ ''|'' @ stableArgs \<mapsto> (tc_name first, e_stringify_result env result)),
                executed @ [(tc_name first, result)]) w1
            = (Inr (toolResults2, roundMemo2, executed2), w2)"
  shows "run_tool_calls env tok (first # between @ [later]) (toolResults, roundMemo, executed) w
            = (Inr (toolResults2 @ [tool_message (tc_id later) (tc_name first) (e_stringify_result env result)],
                    roundMemo2, executed2), w2)"
proof -
  let ?key = "tc_name first @ ''|'' @ stableArgs"
  let ?payload = "e_stringify_result env result"
  let ?st1 = "(toolResults @ [tool_message (tc_id first) (tc_name first) ?payload],
                roundMemo(?key \<mapsto> (tc_name first, ?payload)), executed @ [(tc_name first, result)])"
  have 1: "run_tool_call env tok first (toolResults, roundMemo, executed) w = (Inr ?st1, w1)"
    using parsed unseen known returned by (rule run_tool_call_returned)
  have "(roundMemo(?key \<mapsto> (tc_name first, ?payload))) ?key = Some (tc_name first, ?payload)"
    by simp
  with between have m: "roundMemo2 ?key = Some (tc_name first, ?payload)"
    by (rule run_tool_calls_memo_grows)
  have p2: "e_JSON_parse env (argument_text later) = Inr (args, stableArgs)"
    using parsed same_call_argument_text [OF same] by simp
  have n: "tc_name later = tc_name first" using same by (simp add: same_call_def)
  have 3: "run_tool_call env tok later (toolResults2, roundMemo2, executed2) w2
      = (Inr (toolResults2 @ [tool_message (tc_id later) (tc_name first) ?payload], roundMemo2, executed2), w2)"
    using p2 m unfolding n [symmetric] by (rule run_tool_call_memo_hit)
  have "run_tool_calls env tok (first # between @ [later]) (toolResults, roundMemo, executed) w
      = run_tool_calls env tok (between @ [later]) ?st1 w1"
    using 1 by (rule run_tool_calls_Cons_Inr)
  also have "\<dots> = run_tool_call env tok later (toolResults2, roundMemo2, executed2) w2"
    using between by (rule run_tool_calls_snoc)
  also note 3
  finally show ?thesis .
qed


lemma run_tool_call_invokes:
  assumes parsed: "e_JSON_parse env (argument_text c) = Inr (args, stableArgs)"
    and unseen: "roundMemo (tc_name c @ ''|'' @ stableArgs) = None"
    and known: "funcs (tc_name c) = Some toolFunction"
  shows "w_invocations (snd (run_tool_call env tok c (toolResults, roundMemo, executed) w))
     = w_invocations w @ [(tc_name c, args)]"
proof -
  let ?w = "w\<lparr>w_invocations := w_invocations w @ [(tc_name c, args)]\<rparr>"
  obtain r w1 where f: "toolFunction env tok args ?w = (r, w1)"
    by (cases "toolFunction env tok args ?w")
  have i: "w_invocations w1 = w_invocations w @ [(tc_name c, args)]"
    using funcs_frame [OF known, of ?w env tok args] f by (simp add: same_handler_state_def)
  show ?thesis
  proof (cases r)
    case (Inl msg)
    with f have "toolFunction env tok args ?w = (Inl msg, w1)" by simp
    from run_tool_call_thrown [where roundMemo = roundMemo, OF parsed unseen known this] i show ?thesis by simp
  next
    case (Inr result)
    with f have "toolFunction env tok args ?w = (Inr result, w1)" by simp
    from run_tool_call_returned [where roundMemo = roundMemo, OF parsed unseen known this] i show ?thesis by simp
  qed
qed

lemma thrown_then_again:
  assumes same: "same_call first later"
    and parsed: "e_JSON_parse env (argument_text first) = Inr (args, stableArgs)"
    and unseen: "roundMemo (tc_name first @ ''|'' @ stableArgs) = None"
    and known: "funcs (tc_name first) = Some toolFunction"
    and thrown: "toolFunction env tok args (w\<lparr>w_invocations := w_invocations w @ [(tc_name first, args)]\<rparr>)
            = (Inl msg, w1)"
  shows "run_tool_call env tok first (toolResults, roundMemo, executed) w
            = (Inr (toolResults @ [tool_message (tc_id first) (tc_name first) (e_stringify_error env msg)],
                    roundMemo, executed), w1)"
    and "w_invocations (snd (run_tool_calls env tok [first, later] (toolResults, roundMemo, executed) w))
              = w_invocations w @ [(tc_name first, args), (tc_name first, args)]"
proof -
  let ?st1 = "(toolResults @ [tool_message (tc_id first) (tc_name first) (e_stringify_error env msg)],
                    roundMemo, executed)"
  show 1: "run_tool_call env tok first (toolResults, roundMemo, executed) w = (Inr ?st1, w1)"
    using parsed unseen known thrown by (rule run_tool_call_thrown)
  have i1: "w_invocations w1 = w_invocations w @ [(tc_name first, args)]"
    using run_tool_call_invokes [where roundMemo = roundMemo, OF parsed unseen known, of tok toolResults executed w] 1 by simp
  have n: "tc_name later = tc_name first" using same by (simp add: same_call_def)
  have p2: "e_JSON_parse env (argument_text later) = Inr (args, stableArgs)"
    using parsed same_call_argument_text [OF same] by simp
  have i2: "w_invocations (snd (run_tool_call env tok later ?st1 w1))
      = w_invocations w1 @ [(tc_name later, args)]"
    using p2 unseen known unfolding n [symmetric] by (rule run_tool_call_invokes)
  have "run_tool_calls env tok [first, later] (toolResults, roundMemo, executed) w
      = run_tool_calls env tok [later] ?st1 w1"
    using 1 by (rule run_tool_calls_Cons_Inr)
  also have "snd \<dots> = snd (run_tool_call env tok later ?st1 w1)"
    by (cases "run_tool_call env tok later ?st1 w1") (auto split: sum.splits)
  finally show "w_invocations (snd (run_tool_calls env tok [first, later] (toolResults, roundMemo, executed) w))
              = w_invocations w @ [(tc_name first, args), (tc_name first, args)]"
    using i1 i2 n by simp
qed

lemma failed_twice:
  "w_invocations (snd (run_tool_calls example_env (Some ''user-token'')
       [search_call ''call_1'', search_call ''call_2''] ([], Map.empty, []) empty_world))
     = [(''find_content'', search_args), (''find_content'', search_args)]
   \<and> length (w_backend_log (snd (run_tool_calls example_env (Some ''user-token'')
       [search_call ''call_1'', search_call ''call_2''] ([], Map.empty, []) empty_world))) = 2"
  by (simp add: run_tool_call_def argument_text_def search_call_def example_parse_def search_text_def
      DQ_def Let_def funcs_def find_defs example_defs)

text \<open>
  Claim C2, as stated, fails: two calls of one round with the same tool name and the
  same argument JSON run the executor twice when the first run throws (here the backend
  answers the search with 503); what the executor throws is not memoized.
\<close>

theorem C2_counterexample_executed_twice:
  "same_call (search_call ''call_1'') (search_call ''call_2'')
   \<and> w_invocations (snd (run_tool_calls example_env (Some ''user-token'')
         [search_call ''call_1'', search_call ''call_2''] ([], Map.empty, []) empty_world))
       = [(''find_content'', search_args), (''find_content'', search_args)]
   \<and> length (w_backend_log (snd (run_tool_calls example_env (Some ''user-token'')
         [search_call ''call_1'', search_call ''call_2''] ([], Map.empty, []) empty_world))) = 2"
  using failed_twice by (simp add: same_call_def search_call_def)

text \<open>
  Claim C2, amended.  Take two tool calls of one round with the same tool name and the
  same argument JSON, the first of which finds no memo entry for its key and names a
  known tool.  If the executor returns a result for the first call, then after any
  further calls of the round the later call is answered from the round memo: it gets
  the name and content stored by the first call and leaves the world as it is, so the
  executor does not run for it.  If the executor throws for the first call, the memo is
  left as it was, and the later call, coming next, runs the executor again.
\<close>

theorem C2_round_memo:
  assumes same: "same_call first later"
    and parsed: "e_JSON_parse env (argument_text first) = Inr (args, stableArgs)"
    and unseen: "roundMemo (tc_name first @ ''|'' @ stableArgs) = None"
    and known: "funcs (tc_name first) = Some toolFunction"
  shows "(toolFunction env tok args (w\<lparr>w_invocations := w_invocations w @ [(tc_name first, args)]\<rparr>)
            = (Inr result, w1)
          \<and> run_tool_calls env tok between
               (toolResults @ [tool_message (tc_id first) (tc_name first) (e_stringify_result env result)],
                roundMemo(tc_name first @ ''|'' @ stableArgs \<mapsto> (tc_name first, e_stringify_result env result)),
                executed @ [(tc_name first, result)]) w1
            = (Inr (toolResults2, roundMemo2, executed2), w2) \<longrightarrow>
          run_tool_calls env tok (first # between @ [later]) (toolResults, roundMemo, executed) w
            = (Inr (toolResults2 @ [tool_message (tc_id later) (tc_name first) (e_stringify_result env result)],
                    roundMemo2, executed2), w2))
       \<and> (toolFunction env tok args (w\<lparr>w_invocations := w_invocations w @ [(tc_name first, args)]\<rparr>)
            = (Inl msg, w1) \<longrightarrow>
          run_tool_call env tok first (toolResults, roundMemo, executed) w
            = (Inr (toolResults @ [tool_message (tc_id first) (tc_name first) (e_stringify_error env msg)],
                    roundMemo, executed), w1)
          \<and> w_invocations (snd (run_tool_calls env tok [first, later] (toolResults, roundMemo, executed) w))
              = w_invocations w @ [(tc_name first, args), (tc_name first, args)])"
proof (intro conjI impI)
  assume "toolFunction env tok args (w\<lparr>w_invocations := w_invocations w @ [(tc_name first, args)]\<rparr>)
            = (Inr result, w1)
          \<and> run_tool_calls env tok between
               (toolResults @ [tool_message (tc_id first) (tc_name first) (e_stringify_result env result)],
                roundMemo(tc_name first @ ''|'' @ stableArgs \<mapsto> (tc_name first, e_stringify_result env result)),
                executed @ [(tc_name first, result)]) w1
            = (Inr (toolResults2, roundMemo2, executed2), w2)"
  then have r: "toolFunction env tok args (w\<lparr>w_invocations := w_invocations w @ [(tc_name first, args)]\<rparr>)
            = (Inr result, w1)"
    and b: "run_tool_calls env tok between
               (toolResults @ [tool_message (tc_id first) (tc_name first) (e_stringify_result env result)],
                roundMemo(tc_name first @ ''|'' @ stableArgs \<mapsto> (tc_name first, e_stringify_result env result)),
                executed @ [(tc_name first, result)]) w1
            = (Inr (toolResults2, roundMemo2, executed2), w2)"
    by simp_all
  show "run_tool_calls env tok (first # between @ [later]) (toolResults, roundMemo, executed) w
            = (Inr (toolResults2 @ [tool_message (tc_id later) (tc_name first) (e_stringify_result env result)],
                    roundMemo2, executed2), w2)"
    using same parsed unseen known r b by (rule memo_then_hit)
next
  assume t: "toolFunction env tok args (w\<lparr>w_invocations := w_invocations w @ [(tc_name first, args)]\<rparr>)
            = (Inl msg, w1)"
  show "run_tool_call env tok first (toolResults, roundMemo, executed) w
            = (Inr (toolResults @ [tool_message (tc_id first) (tc_name first) (e_stringify_error env msg)],
                    roundMemo, executed), w1)"
    using same parsed unseen known t by (rule thrown_then_again(1))
  show "w_invocations (snd (run_tool_calls env tok [first, later] (toolResults, roundMemo, executed) w))
              = w_invocations w @ [(tc_name first, args), (tc_name first, args)]"
    using same parsed unseen known t by (rule thrown_then_again(2))
qed

lemma found_search:
  "find_content (example_env\<lparr>e_backend := helpful_backend\<rparr>) (Some ''user-token'') search_args
     (empty_world\<lparr>w_invocations := w_invocations empty_world @ [(''find_content'', search_args)]\<rparr>)
   = (Inr (FindContentResult [\<lparr>it_title = ''Bike lanes'', it_type = ''idea'', it_id = Some ''7'',
                               it_link = Some ''https://needpedia.org/posts/7''\<rparr>]),
      empty_world\<lparr>w_invocations := [(''find_content'', search_args)], w_clock_reads := 1,
        w_backend_log := [GetPosts (Some ''user-token'') ''all'' ''bike lanes''],
        w_cache := [(''bike lanes'', ''all'') \<mapsto> (5000, [\<lparr>it_title = ''Bike lanes'', it_type = ''idea'', it_id = Some ''7'',
                               it_link = Some ''https://needpedia.org/posts/7''\<rparr>])]\<rparr>)"
  by (simp add: find_defs example_defs post_source_def normalizePostArray_def isNeedpediaPost_def
      post_of_def to_item_def first_truthy_def)

theorem C2_round_memo_witness:
  "same_call (search_call ''call_1'') (search_call ''call_2'')
   \<and> funcs (tc_name (search_call ''call_1'')) = Some find_content
   \<and> w_invocations (snd (run_tool_calls (example_env\<lparr>e_backend := helpful_backend\<rparr>) (Some ''user-token'')
         [search_call ''call_1'', search_call ''call_2''] ([], Map.empty, []) empty_world))
       = [(''find_content'', search_args)]
   \<and> map m_content (fst (projr (fst (run_tool_calls (example_env\<lparr>e_backend := helpful_backend\<rparr>)
         (Some ''user-token'') [search_call ''call_1'', search_call ''call_2''] ([], Map.empty, []) empty_world))))
       = [''{items}'', ''{items}'']
   \<and> w_invocations (snd (run_tool_calls example_env (Some ''user-token'')
         [search_call ''call_1'', search_call ''call_2''] ([], Map.empty, []) empty_world))
       = [(''find_content'', search_args), (''find_content'', search_args)]"
proof -
  let ?henv = "example_env\<lparr>e_backend := helpful_backend\<rparr>"
  let ?c1 = "search_call ''call_1''" and ?c2 = "search_call ''call_2''"
  let ?item = "\<lparr>it_title = ''Bike lanes'', it_type = ''idea'', it_id = Some ''7'',
                               it_link = Some ''https://needpedia.org/posts/7''\<rparr>"
  let ?w1 = "empty_world\<lparr>w_invocations := [(''find_content'', search_args)], w_clock_reads := 1,
        w_backend_log := [GetPosts (Some ''user-token'') ''all'' ''bike lanes''],
        w_cache := [(''bike lanes'', ''all'') \<mapsto> (5000, [?item])]\<rparr>"
  have s: "same_call ?c1 ?c2" by (simp add: same_call_def search_call_def)
  have n: "tc_name ?c1 = ''find_content''" "tc_id ?c1 = ''call_1''" "tc_id ?c2 = ''call_2''"
    by (simp_all add: search_call_def)
  have p: "e_JSON_parse ?henv (argument_text ?c1) = Inr (search_args, search_text)"
    "e_JSON_parse example_env (argument_text ?c1) = Inr (search_args, search_text)"
    by (simp_all add: example_env_def argument_text_def search_call_def example_parse_def search_text_def)
  have u: "Map.empty (tc_name ?c1 @ ''|'' @ search_text) = None" by simp
  have k: "funcs (tc_name ?c1) = Some find_content" by (simp add: n funcs_def)
  have sr: "e_stringify_result ?henv (FindContentResult [?item]) = ''{items}''"
    by (simp add: example_env_def example_stringify_result_def)
  have i: "w_invocations empty_world = []" by (simp add: empty_world_def)
  note t = C2_round_memo [where env = ?henv and first = ?c1 and later = ?c2 and args = search_args
      and stableArgs = search_text and roundMemo = Map.empty and toolFunction = find_content
      and tok = "Some ''user-token''" and w = empty_world and result = "FindContentResult [?item]"
      and ?w1.0 = ?w1 and between = "[]" and toolResults = "[]" and executed = "[]", OF s p(1) u k]
  have 1: "run_tool_calls ?henv (Some ''user-token'') [?c1, ?c2] ([], Map.empty, []) empty_world
     = (Inr ([tool_message ''call_1'' ''find_content'' ''{items}'',
              tool_message ''call_2'' ''find_content'' ''{items}''],
             [''find_content'' @ ''|'' @ search_text \<mapsto> (''find_content'', ''{items}'')],
             [(''find_content'', FindContentResult [?item])]), ?w1)"
    using t found_search n sr i by (simp del: run_tool_calls.simps(2))
  note f = C2_round_memo [where env = example_env and first = ?c1 and later = ?c2 and args = search_args
      and stableArgs = search_text and roundMemo = Map.empty and toolFunction = find_content
      and tok = "Some ''user-token''" and w = empty_world and toolResults = "[]" and executed = "[]"
      and msg = "''API request failed: 503 - Service Unavailable''"
      and ?w1.0 = "empty_world\<lparr>w_invocations := [(''find_content'', search_args)], w_clock_reads := 1,
        w_backend_log := [GetPosts (Some ''user-token'') ''all'' ''bike lanes'']\<rparr>", OF s p(2) u k]
  have 2: "w_invocations (snd (run_tool_calls example_env (Some ''user-token'') [?c1, ?c2]
         ([], Map.empty, []) empty_world))
       = [(''find_content'', search_args), (''find_content'', search_args)]"
    using f failed_search_thrown n i by (simp del: run_tool_calls.simps(2))
  show ?thesis using s k 1 2 by (simp add: tool_message_def empty_world_def)
qed

end
